theory Spec2Isabelle
  imports Main "HOL-Library.Char_ord" "HOL-Library.List_Lexorder"
begin

section \<open>Python strings\<close>

text \<open>
  A Python \<open>str\<close> is modelled as a \<open>string\<close> whose characters are the code points
  below 256. On these, the regular-expression class \<open>\d\<close> is exactly the ten ASCII digits.
\<close>

definition startswith :: "string \<Rightarrow> string \<Rightarrow> bool" where
  "startswith s p = (take (length p) s = p)"

definition endswith :: "string \<Rightarrow> string \<Rightarrow> bool" where
  "endswith s x = (length x \<le> length s \<and> drop (length s - length x) s = x)"

text \<open>\<open>sub in s\<close>\<close>

fun contains :: "string \<Rightarrow> string \<Rightarrow> bool" where
  "contains [] sub = (sub = [])"
| "contains (c # cs) sub = (startswith (c # cs) sub \<or> contains cs sub)"

text \<open>\<open>s.split(sep)\<close> for a one-character separator: never empty, keeps empty segments.\<close>

fun split :: "char \<Rightarrow> string \<Rightarrow> string list" where
  "split sep [] = [[]]"
| "split sep (c # cs) =
     (if c = sep then [] # split sep cs
      else (case split sep cs of
              [] \<Rightarrow> [[c]]
            | p # ps \<Rightarrow> (c # p) # ps))"

text \<open>\<open>sep.join(parts)\<close>\<close>

fun join :: "string \<Rightarrow> string list \<Rightarrow> string" where
  "join sep [] = []"
| "join sep [p] = p"
| "join sep (p # q # ps) = p @ sep @ join sep (q # ps)"

text \<open>\<open>s.lstrip(ch)\<close> and \<open>s.rstrip(ch)\<close> for a single character.\<close>

definition lstrip :: "char \<Rightarrow> string \<Rightarrow> string" where
  "lstrip ch s = dropWhile (\<lambda>c. c = ch) s"

definition rstrip :: "char \<Rightarrow> string \<Rightarrow> string" where
  "rstrip ch s = rev (dropWhile (\<lambda>c. c = ch) (rev s))"

text \<open>\<open>d.get(k, default)\<close> on a dictionary kept as an association list.\<close>

definition dict_get :: "('k \<times> 'v) list \<Rightarrow> 'k \<Rightarrow> 'v \<Rightarrow> 'v" where
  "dict_get d k dflt = (case map_of d k of None \<Rightarrow> dflt | Some v \<Rightarrow> v)"

section \<open>Regular expressions of the source\<close>

text \<open>
  The patterns of the source are sequences of \<open>\d\<close> and literal characters.
  \<open>match_atoms p s\<close> consumes a prefix of \<open>s\<close> matching \<open>p\<close> and returns the rest.
\<close>

datatype atom = Digit | Lit char

definition isdigit :: "char \<Rightarrow> bool" where
  "isdigit c = (c \<in> set ''0123456789'')"

fun match_atoms :: "atom list \<Rightarrow> string \<Rightarrow> string option" where
  "match_atoms [] s = Some s"
| "match_atoms (a # as) [] = None"
| "match_atoms (Digit # as) (c # cs) = (if isdigit c then match_atoms as cs else None)"
| "match_atoms (Lit l # as) (c # cs) = (if c = l then match_atoms as cs else None)"

text \<open>
  \<open>re.match(r'^P$', s)\<close>: without the MULTILINE flag, \<open>$\<close> matches at the end of the
  string and also just before a newline that ends the string.
\<close>

definition re_match :: "atom list \<Rightarrow> string \<Rightarrow> bool" where
  "re_match p s =
     (case match_atoms p s of
        None \<Rightarrow> False
      | Some rest \<Rightarrow> rest = [] \<or> rest = [CHR 0x0A])"

text \<open>\<open>P.fullmatch(s)\<close>: the whole string, no newline allowance.\<close>

definition re_fullmatch :: "atom list \<Rightarrow> string \<Rightarrow> bool" where
  "re_fullmatch p s = (match_atoms p s = Some [])"

text \<open>\<open>\d{8}T\d{6}Z\<close>\<close>

definition ASSEMBLY_RE :: "atom list" where
  "ASSEMBLY_RE =
     [Digit, Digit, Digit, Digit, Digit, Digit, Digit, Digit, Lit CHR ''T'',
      Digit, Digit, Digit, Digit, Digit, Digit, Lit CHR ''Z'']"

text \<open>\<open>\d{8}-\d{8}\<close>\<close>

definition BILLING_PERIOD_RE :: "atom list" where
  "BILLING_PERIOD_RE =
     [Digit, Digit, Digit, Digit, Digit, Digit, Digit, Digit, Lit CHR ''-'',
      Digit, Digit, Digit, Digit, Digit, Digit, Digit, Digit]"

section \<open>Key classifier (cur_forwarder.py)\<close>

definition is_assembly_manifest :: "string \<Rightarrow> bool" where
  "is_assembly_manifest key =
     (if \<not> endswith key ''Manifest.json'' then False
      else let parts = split CHR ''/'' key in
        if length parts < 3 then False
        else re_match ASSEMBLY_RE (parts ! (length parts - 2)))"

definition is_assembly_data_file :: "string \<Rightarrow> bool" where
  "is_assembly_data_file key =
     (if \<not> endswith key ''.csv.gz'' then False
      else let parts = split CHR ''/'' key in
        if length parts < 3 then False
        else re_match ASSEMBLY_RE (parts ! (length parts - 2)))"

section \<open>Path mapper (cur_forwarder.py)\<close>

type_synonym prefix_config = "(string \<times> string) list"

definition calculate_destination_key :: "string \<Rightarrow> prefix_config \<Rightarrow> string" where
  "calculate_destination_key source_key prefix_config =
     (let source_prefix = dict_get prefix_config ''source_prefix'' '''';
          destination_prefix = dict_get prefix_config ''destination_prefix'' '''';
          relative_key =
            (if source_prefix \<noteq> [] \<and> startswith source_key source_prefix
             then lstrip CHR ''/'' (drop (length source_prefix) source_key)
             else source_key)
      in if destination_prefix \<noteq> []
         then rstrip CHR ''/'' destination_prefix @ ''/'' @ relative_key
         else relative_key)"

section \<open>The services the code calls\<close>

text \<open>
  The code talks to S3 and to the Glue catalog through the SDK. Every call either
  returns or raises. \<open>ClientError code\<close> is \<open>botocore.exceptions.ClientError\<close> with
  \<open>e.response['Error']['Code'] = code\<close>; \<open>BotoCoreError\<close> stands for every other
  exception of the SDK (connection, timeout, parameter validation), which no
  \<open>except ClientError\<close> clause catches. The remaining ones are raised by Python itself.
\<close>

datatype exn =
    ClientError string
  | BotoCoreError
  | KeyError
  | ValueError
  | AttributeError
  | JSONDecodeError

fun is_ClientError :: "exn \<Rightarrow> bool" where
  "is_ClientError (ClientError code) = True"
| "is_ClientError e = False"

text \<open>
  What \<open>json.loads\<close> makes of an object's bytes: not JSON at all (every data file),
  JSON that is not an object, or an object, of which only \<open>reportKeys\<close> is read
  (a missing \<open>reportKeys\<close> is the empty list: the code treats both alike).
  A \<open>reportKeys\<close> that is not a list of strings is outside the model.
\<close>

datatype document = Unparseable | NonObject | Manifest "string list"

record storage_descriptor =
  Location :: string
  Descriptor :: "(string \<times> string) list"

record partition_input =
  Values :: "string list"
  StorageDescriptor :: storage_descriptor

datatype call =
    HeadObject string string
  | GetObject string string
  | CopyObject string string string string
  | ListObjectsV2 string string nat
  | ListObjectsV2Pages string string
  | GetTable string string
  | UpdatePartition string string "string list" partition_input
  | CreatePartition string string partition_input

text \<open>
  The world outside the process: the objects of all buckets, keyed by (bucket, key); the
  catalog's tables, keyed by (database, table), and partitions, keyed by (database, table,
  values); \<open>faults n c\<close>, the exception with which the service answers when the \<open>n\<close>-th
  call made is \<open>c\<close> (transient failures: throttling, lost connections, denied access);
  and the calls made so far, oldest first, each with the exception it raised.
\<close>

record world =
  objects :: "((string \<times> string) \<times> document) list"
  tables :: "((string \<times> string) \<times> storage_descriptor) list"
  partitions :: "((string \<times> string \<times> string list) \<times> partition_input) list"
  faults :: "nat \<Rightarrow> call \<Rightarrow> exn option"
  calls :: "(call \<times> exn option) list"

text \<open>\<open>d[k] = v\<close> on an association list: in place when the key is there, appended otherwise.\<close>

fun dict_set :: "'k \<Rightarrow> 'v \<Rightarrow> ('k \<times> 'v) list \<Rightarrow> ('k \<times> 'v) list" where
  "dict_set k v [] = [(k, v)]"
| "dict_set k v ((k', v') # d) = (if k' = k then (k, v) # d else (k', v') # dict_set k v d)"

definition invoke :: "call \<Rightarrow> (world \<Rightarrow> exn + 'a \<times> world) \<Rightarrow> world \<Rightarrow> (exn + 'a) \<times> world" where
  "invoke c service w =
     (case faults w (length (calls w)) c of
        Some e \<Rightarrow> (Inl e, w\<lparr>calls := calls w @ [(c, Some e)]\<rparr>)
      | None \<Rightarrow>
          (case service w of
             Inl e \<Rightarrow> (Inl e, w\<lparr>calls := calls w @ [(c, Some e)]\<rparr>)
           | Inr (v, w') \<Rightarrow> (Inr v, w'\<lparr>calls := calls w @ [(c, None)]\<rparr>)))"

definition s3_head_object :: "string \<Rightarrow> string \<Rightarrow> world \<Rightarrow> (exn + unit) \<times> world" where
  "s3_head_object bucket key =
     invoke (HeadObject bucket key)
       (\<lambda>w. case map_of (objects w) (bucket, key) of
               None \<Rightarrow> Inl (ClientError ''404'')
             | Some d \<Rightarrow> Inr ((), w))"

definition s3_get_object :: "string \<Rightarrow> string \<Rightarrow> world \<Rightarrow> (exn + document) \<times> world" where
  "s3_get_object bucket key =
     invoke (GetObject bucket key)
       (\<lambda>w. case map_of (objects w) (bucket, key) of
               None \<Rightarrow> Inl (ClientError ''NoSuchKey'')
             | Some d \<Rightarrow> Inr (d, w))"

definition s3_copy_object ::
  "string \<Rightarrow> string \<Rightarrow> string \<Rightarrow> string \<Rightarrow> world \<Rightarrow> (exn + unit) \<times> world" where
  "s3_copy_object source_bucket source_key dest_bucket dest_key =
     invoke (CopyObject source_bucket source_key dest_bucket dest_key)
       (\<lambda>w. case map_of (objects w) (source_bucket, source_key) of
               None \<Rightarrow> Inl (ClientError ''NoSuchKey'')
             | Some d \<Rightarrow> Inr ((), w\<lparr>objects := dict_set (dest_bucket, dest_key) d (objects w)\<rparr>))"

text \<open>The keys of a bucket under a prefix, in the order S3 lists them (by code point).\<close>

definition keys_under :: "world \<Rightarrow> string \<Rightarrow> string \<Rightarrow> string list" where
  "keys_under w bucket prefix =
     sort (remdups (map (\<lambda>ob. snd (fst ob))
       (filter (\<lambda>ob. fst (fst ob) = bucket \<and> startswith (snd (fst ob)) prefix) (objects w))))"

definition s3_list_objects_v2 ::
  "string \<Rightarrow> string \<Rightarrow> nat \<Rightarrow> world \<Rightarrow> (exn + string list) \<times> world" where
  "s3_list_objects_v2 bucket prefix max_keys =
     invoke (ListObjectsV2 bucket prefix max_keys)
       (\<lambda>w. Inr (take max_keys (keys_under w bucket prefix), w))"

text \<open>The paginator: every page of the listing, flattened.\<close>

definition s3_paginate_list_objects_v2 ::
  "string \<Rightarrow> string \<Rightarrow> world \<Rightarrow> (exn + string list) \<times> world" where
  "s3_paginate_list_objects_v2 bucket prefix =
     invoke (ListObjectsV2Pages bucket prefix)
       (\<lambda>w. Inr (keys_under w bucket prefix, w))"

definition glue_get_table ::
  "string \<Rightarrow> string \<Rightarrow> world \<Rightarrow> (exn + storage_descriptor) \<times> world" where
  "glue_get_table database name =
     invoke (GetTable database name)
       (\<lambda>w. case map_of (tables w) (database, name) of
               None \<Rightarrow> Inl (ClientError ''EntityNotFoundException'')
             | Some sd \<Rightarrow> Inr (sd, w))"

definition glue_update_partition ::
  "string \<Rightarrow> string \<Rightarrow> string list \<Rightarrow> partition_input \<Rightarrow> world \<Rightarrow> (exn + unit) \<times> world" where
  "glue_update_partition database table_name value_list partition_input =
     invoke (UpdatePartition database table_name value_list partition_input)
       (\<lambda>w. case map_of (partitions w) (database, table_name, value_list) of
               None \<Rightarrow> Inl (ClientError ''EntityNotFoundException'')
             | Some p \<Rightarrow>
                 Inr ((), w\<lparr>partitions :=
                   dict_set (database, table_name, value_list) partition_input (partitions w)\<rparr>))"

definition glue_create_partition ::
  "string \<Rightarrow> string \<Rightarrow> partition_input \<Rightarrow> world \<Rightarrow> (exn + unit) \<times> world" where
  "glue_create_partition database table_name partition_input =
     invoke (CreatePartition database table_name partition_input)
       (\<lambda>w. case map_of (tables w) (database, table_name) of
               None \<Rightarrow> Inl (ClientError ''EntityNotFoundException'')
             | Some sd \<Rightarrow>
                 (case map_of (partitions w) (database, table_name, Values partition_input) of
                    Some p \<Rightarrow> Inl (ClientError ''AlreadyExistsException'')
                  | None \<Rightarrow>
                      Inr ((), w\<lparr>partitions :=
                        dict_set (database, table_name, Values partition_input)
                          partition_input (partitions w)\<rparr>)))"

section \<open>The forwarder (cur_forwarder.py)\<close>

text \<open>
  The module's configuration, read from the environment when the module is loaded, and
  \<open>urllib.parse.unquote_plus\<close>, taken as a parameter. An unset \<open>DESTINATION_BUCKET\<close> is
  the empty string here: the handler's guard treats both alike.
\<close>

record env =
  DESTINATION_BUCKET :: string
  PREFIX_MAPPING :: "(string \<times> prefix_config) list"
  GLUE_DATABASE :: string
  TABLE_MAPPING :: "(string \<times> string) list"
  unquote_plus :: "string \<Rightarrow> string"

text \<open>\<open>copy_object\<close> logs a \<open>ClientError\<close> and raises it again.\<close>

definition copy_object ::
  "string \<Rightarrow> string \<Rightarrow> string \<Rightarrow> string \<Rightarrow> world \<Rightarrow> (exn + unit) \<times> world" where
  "copy_object source_bucket source_key dest_bucket dest_key w =
     (case s3_copy_object source_bucket source_key dest_bucket dest_key w of
        (Inl e, w1) \<Rightarrow> (Inl e, w1)
      | (Inr u, w1) \<Rightarrow> (Inr (), w1))"

subsection \<open>Manifest expansion\<close>

text \<open>
  The loop of \<open>copy_manifest_data_files\<close> over \<open>report_keys\<close>, with \<open>copied\<close> as built so
  far. The probe's \<open>except ClientError\<close> lets every other exception through; the copy's
  \<open>except Exception\<close> catches all.
\<close>

fun copy_report_keys ::
  "env \<Rightarrow> string \<Rightarrow> prefix_config \<Rightarrow> string list \<Rightarrow> string list \<Rightarrow> world
     \<Rightarrow> (exn + string list) \<times> world" where
  "copy_report_keys env source_bucket prefix_config [] copied w = (Inr copied, w)"
| "copy_report_keys env source_bucket prefix_config (report_key # rest) copied w =
     (let dest_key = calculate_destination_key report_key prefix_config in
      case s3_head_object (DESTINATION_BUCKET env) dest_key w of
        (Inr u, w1) \<Rightarrow>
          copy_report_keys env source_bucket prefix_config rest (copied @ [dest_key]) w1
      | (Inl e, w1) \<Rightarrow>
          if is_ClientError e then
            (case copy_object source_bucket report_key (DESTINATION_BUCKET env) dest_key w1 of
               (Inr u, w2) \<Rightarrow>
                 copy_report_keys env source_bucket prefix_config rest (copied @ [dest_key]) w2
             | (Inl e', w2) \<Rightarrow>
                 copy_report_keys env source_bucket prefix_config rest copied w2)
          else (Inl e, w1))"

definition copy_manifest_data_files ::
  "env \<Rightarrow> string \<Rightarrow> string \<Rightarrow> prefix_config \<Rightarrow> world \<Rightarrow> (exn + string list) \<times> world" where
  "copy_manifest_data_files env source_bucket manifest_source_key prefix_config w =
     (case s3_get_object source_bucket manifest_source_key w of
        (Inl e, w1) \<Rightarrow> (Inr [], w1)
      | (Inr Unparseable, w1) \<Rightarrow> (Inr [], w1)
      | (Inr NonObject, w1) \<Rightarrow> (Inl AttributeError, w1)
      | (Inr (Manifest report_keys), w1) \<Rightarrow>
          if report_keys = [] then (Inr [], w1)
          else copy_report_keys env source_bucket prefix_config report_keys [] w1)"

subsection \<open>Partition management\<close>

fun first_matching_prefix :: "(string \<times> string) list \<Rightarrow> string \<Rightarrow> string option" where
  "first_matching_prefix [] key = None"
| "first_matching_prefix ((prefix, table_name) # rest) key =
     (if startswith key prefix then Some table_name else first_matching_prefix rest key)"

definition resolve_table_name :: "env \<Rightarrow> string \<Rightarrow> string option" where
  "resolve_table_name env key = first_matching_prefix (TABLE_MAPPING env) key"

text \<open>
  The loop over \<open>enumerate(parts)\<close>: the first part matching the billing period pattern,
  with \<open>assembly_index\<close>, the index after it.
\<close>

fun find_billing_period :: "nat \<Rightarrow> string list \<Rightarrow> (string \<times> nat) option" where
  "find_billing_period i [] = None"
| "find_billing_period i (part # parts) =
     (if re_match BILLING_PERIOD_RE part then Some (part, i + 1)
      else find_billing_period (i + 1) parts)"

definition update_athena_partition ::
  "env \<Rightarrow> string \<Rightarrow> string \<Rightarrow> world \<Rightarrow> (exn + unit) \<times> world" where
  "update_athena_partition env bucket manifest_key w =
     (case resolve_table_name env manifest_key of
        None \<Rightarrow> (Inr (), w)
      | Some table_name \<Rightarrow>
          if table_name = [] then (Inr (), w)
          else
            let parts = split CHR ''/'' manifest_key in
            (case find_billing_period 0 parts of
               None \<Rightarrow> (Inr (), w)
             | Some (billing_period, assembly_index) \<Rightarrow>
                 if billing_period = [] \<or> assembly_index \<ge> length parts then (Inr (), w)
                 else
                   let partition_path = join ''/'' (take (assembly_index + 1) parts);
                       partition_location = ''s3://'' @ bucket @ ''/'' @ partition_path @ ''/'';
                       assembly_prefix = partition_path @ ''/''
                   in
                   (case s3_list_objects_v2 bucket assembly_prefix 20 w of
                      (Inl e, w1) \<Rightarrow> (Inl e, w1)
                    | (Inr contents, w1) \<Rightarrow>
                        let data_files = filter (\<lambda>k. endswith k ''.csv.gz'') contents in
                        if data_files = [] then (Inr (), w1)
                        else
                          (case glue_get_table (GLUE_DATABASE env) table_name w1 of
                             (Inl e, w2) \<Rightarrow> (Inl e, w2)
                           | (Inr table_sd, w2) \<Rightarrow>
                               let sd = table_sd\<lparr>Location := partition_location\<rparr>;
                                   partition_input =
                                     \<lparr>Values = [billing_period], StorageDescriptor = sd\<rparr>
                               in
                               (case glue_update_partition (GLUE_DATABASE env) table_name
                                       [billing_period] partition_input w2 of
                                  (Inr u, w3) \<Rightarrow> (Inr (), w3)
                                | (Inl e, w3) \<Rightarrow>
                                    if e = ClientError ''EntityNotFoundException''
                                    then glue_create_partition (GLUE_DATABASE env) table_name
                                           partition_input w3
                                    else (Inl e, w3))))))"

subsection \<open>One record, one batch\<close>

text \<open>
  An S3 event record carries a bucket name and a percent-encoded key; one that lacks
  them raises \<open>KeyError\<close>. The \<open>Message\<close> of an SNS record is JSON text holding further
  S3 records, or does not parse.
\<close>

datatype s3_record = S3Record string string | MalformedRecord

datatype event_record = Sns "s3_record list option" | Direct s3_record

record result =
  source :: string
  destination :: string
  copied_data_files :: "nat option"

definition process_record :: "env \<Rightarrow> s3_record \<Rightarrow> world \<Rightarrow> (exn + result) \<times> world" where
  "process_record env record w =
     (case record of
        MalformedRecord \<Rightarrow> (Inl KeyError, w)
      | S3Record source_bucket object_key \<Rightarrow>
          let source_key = unquote_plus env object_key;
              configured = dict_get (PREFIX_MAPPING env) source_bucket [];
              prefix_config =
                (if configured = []
                 then [(''source_prefix'', ''''), (''destination_prefix'', '''')]
                 else configured);
              destination_key = calculate_destination_key source_key prefix_config
          in
          (case (if is_assembly_manifest destination_key
                 then copy_manifest_data_files env source_bucket source_key prefix_config w
                 else (case copy_object source_bucket source_key
                              (DESTINATION_BUCKET env) destination_key w of
                         (Inl e, w1) \<Rightarrow> (Inl e, w1)
                       | (Inr u, w1) \<Rightarrow> (Inr [], w1))) of
             (Inl e, w1) \<Rightarrow> (Inl e, w1)
           | (Inr copied, w1) \<Rightarrow>
               let partition_key =
                     (if is_assembly_manifest destination_key then Some destination_key
                      else if is_assembly_data_file destination_key then Some destination_key
                      else None);
                   w2 =
                     (if GLUE_DATABASE env \<noteq> [] then
                        (case partition_key of
                           None \<Rightarrow> w1
                         | Some k \<Rightarrow>
                             if k \<noteq> []
                             then snd (update_athena_partition env (DESTINATION_BUCKET env) k w1)
                             else w1)
                      else w1)
               in (Inr \<lparr>source = ''s3://'' @ source_bucket @ ''/'' @ source_key,
                        destination = ''s3://'' @ DESTINATION_BUCKET env @ ''/'' @ destination_key,
                        copied_data_files =
                          (if copied = [] then None else Some (length copied))\<rparr>,
                   w2)))"

text \<open>
  The inner loop over the S3 records of one SNS message. It runs inside the \<open>try\<close> of
  the outer loop: the first exception ends it, the results appended before stay.
\<close>

fun process_sns_records ::
  "env \<Rightarrow> s3_record list \<Rightarrow> result list \<Rightarrow> world \<Rightarrow> (exn option \<times> result list) \<times> world" where
  "process_sns_records env [] processed_files w = ((None, processed_files), w)"
| "process_sns_records env (s3_rec # rest) processed_files w =
     (case process_record env s3_rec w of
        (Inl e, w1) \<Rightarrow> ((Some e, processed_files), w1)
      | (Inr res, w1) \<Rightarrow> process_sns_records env rest (processed_files @ [res]) w1)"

text \<open>The body of the outer loop: the \<open>try\<close> with its \<open>except Exception\<close>.\<close>

definition handle_record ::
  "env \<Rightarrow> event_record \<Rightarrow> result list \<times> exn list \<Rightarrow> world \<Rightarrow> (result list \<times> exn list) \<times> world" where
  "handle_record env record acc w =
     (case acc of (processed_files, errs) \<Rightarrow>
        (case record of
           Sns None \<Rightarrow> ((processed_files, errs @ [JSONDecodeError]), w)
         | Sns (Some s3_records) \<Rightarrow>
             (case process_sns_records env s3_records processed_files w of
                ((None, processed_files'), w1) \<Rightarrow> ((processed_files', errs), w1)
              | ((Some e, processed_files'), w1) \<Rightarrow> ((processed_files', errs @ [e]), w1))
         | Direct s3_rec \<Rightarrow>
             (case process_record env s3_rec w of
                (Inl e, w1) \<Rightarrow> ((processed_files, errs @ [e]), w1)
              | (Inr res, w1) \<Rightarrow> ((processed_files @ [res], errs), w1))))"

fun handle_records ::
  "env \<Rightarrow> event_record list \<Rightarrow> result list \<times> exn list \<Rightarrow> world
     \<Rightarrow> (result list \<times> exn list) \<times> world" where
  "handle_records env [] acc w = (acc, w)"
| "handle_records env (record # rest) acc w =
     (case handle_record env record acc w of (acc', w1) \<Rightarrow> handle_records env rest acc' w1)"

record response =
  statusCode :: nat
  processed :: nat
  errors :: nat
  files :: "result list"
  error_details :: "exn list option"

definition handler :: "env \<Rightarrow> event_record list \<Rightarrow> world \<Rightarrow> (exn + response) \<times> world" where
  "handler env event w =
     (if DESTINATION_BUCKET env = [] then (Inl ValueError, w)
      else
        (case handle_records env event ([], []) w of
           ((processed_files, errs), w1) \<Rightarrow>
             (Inr \<lparr>statusCode = (if errs = [] then 200 else 207),
                   processed = length processed_files,
                   errors = length errs,
                   files = processed_files,
                   error_details = (if errs = [] then None else Some errs)\<rparr>,
              w1)))"

section \<open>The backfill script (bootstrap_partitions.py)\<close>

text \<open>
  The script's \<open>BUCKET\<close>, \<open>GLUE_DATABASE\<close> and \<open>ACCOUNTS\<close> are parameters here. Its
  patterns are used with \<open>fullmatch\<close>.
\<close>

type_synonym versioned = "(string \<times> (string \<times> string) list) list"
type_synonym flat = "(string \<times> string) list"

text \<open>
  The loop over \<open>enumerate(parts)\<close> for one key, from index \<open>i\<close> on, \<open>rest\<close> being the
  parts not yet seen: the first part that is a billing period decides, then \<open>break\<close>.
\<close>

fun scan_parts ::
  "string \<Rightarrow> string list \<Rightarrow> nat \<Rightarrow> string list \<Rightarrow> versioned \<times> flat \<Rightarrow> versioned \<times> flat" where
  "scan_parts key parts i [] (versioned, flat) = (versioned, flat)"
| "scan_parts key parts i (part # rest) (versioned, flat) =
     (if \<not> re_fullmatch BILLING_PERIOD_RE part
      then scan_parts key parts (i + 1) rest (versioned, flat)
      else
        let billing_period = part;
            period_path = join ''/'' (take (i + 1) parts)
        in if i + 1 < length parts \<and> re_fullmatch ASSEMBLY_RE (parts ! (i + 1))
           then
             let assembly_id = parts ! (i + 1);
                 assembly_path = join ''/'' (take (i + 2) parts)
             in (dict_set billing_period
                   (dict_get versioned billing_period [] @ [(assembly_id, assembly_path)])
                   versioned,
                 flat)
           else if endswith key ''.csv.gz''
           then (versioned, dict_set billing_period period_path flat)
           else (versioned, flat))"

fun scan_keys :: "string list \<Rightarrow> versioned \<times> flat \<Rightarrow> versioned \<times> flat" where
  "scan_keys [] acc = acc"
| "scan_keys (key # keys) acc =
     scan_keys keys (scan_parts key (split CHR ''/'' key) 0 (split CHR ''/'' key) acc)"

text \<open>
  The result for one period: the assembly with the greatest id (a stable sort, then the
  last element) when the period has assemblies, the flat folder otherwise.
\<close>

definition partition_of :: "versioned \<Rightarrow> flat \<Rightarrow> string \<Rightarrow> string \<times> string" where
  "partition_of versioned flat period =
     (case map_of versioned period of
        Some assemblies \<Rightarrow> last (sort_key fst assemblies)
      | None \<Rightarrow> (''flat'', dict_get flat period []))"

text \<open>
  \<open>find_partitions\<close> on the keys the paginator yields. The result is a dictionary; it is
  kept here in the order in which \<open>main\<close> walks it, sorted by period.
\<close>

definition find_partitions_of_keys :: "string list \<Rightarrow> (string \<times> string \<times> string) list" where
  "find_partitions_of_keys keys =
     (case scan_keys keys ([], []) of
        (versioned, flat) \<Rightarrow>
          map (\<lambda>period. (period, partition_of versioned flat period))
            (sort (remdups (map fst versioned @ map fst flat))))"

definition find_partitions ::
  "string \<Rightarrow> string \<Rightarrow> world \<Rightarrow> (exn + (string \<times> string \<times> string) list) \<times> world" where
  "find_partitions BUCKET prefix w =
     (case s3_paginate_list_objects_v2 BUCKET prefix w of
        (Inl e, w1) \<Rightarrow> (Inl e, w1)
      | (Inr keys, w1) \<Rightarrow> (Inr (find_partitions_of_keys keys), w1))"

definition create_or_update_partition ::
  "string \<Rightarrow> string \<Rightarrow> string \<Rightarrow> string \<Rightarrow> world \<Rightarrow> (exn + string) \<times> world" where
  "create_or_update_partition database table_name billing_period location w =
     (case glue_get_table database table_name w of
        (Inl e, w1) \<Rightarrow> (Inl e, w1)
      | (Inr table_sd, w1) \<Rightarrow>
          let sd = table_sd\<lparr>Location := location\<rparr>;
              partition_input = \<lparr>Values = [billing_period], StorageDescriptor = sd\<rparr>
          in
          (case glue_update_partition database table_name [billing_period] partition_input w1 of
             (Inr u, w2) \<Rightarrow> (Inr ''updated'', w2)
           | (Inl e, w2) \<Rightarrow>
               if e = ClientError ''EntityNotFoundException''
               then (case glue_create_partition database table_name partition_input w2 of
                       (Inl e', w3) \<Rightarrow> (Inl e', w3)
                     | (Inr u, w3) \<Rightarrow> (Inr ''created'', w3))
               else (Inl e, w2)))"

text \<open>The loop of \<open>main\<close> over the periods of one account; an exception ends the script.\<close>

fun bootstrap_periods ::
  "string \<Rightarrow> string \<Rightarrow> string \<Rightarrow> (string \<times> string \<times> string) list \<Rightarrow> world
     \<Rightarrow> (exn + unit) \<times> world" where
  "bootstrap_periods BUCKET database table_name [] w = (Inr (), w)"
| "bootstrap_periods BUCKET database table_name ((period, label, partition_path) # rest) w =
     (let location = ''s3://'' @ BUCKET @ ''/'' @ partition_path @ ''/'' in
      case create_or_update_partition database table_name period location w of
        (Inl e, w1) \<Rightarrow> (Inl e, w1)
      | (Inr action, w1) \<Rightarrow> bootstrap_periods BUCKET database table_name rest w1)"

fun bootstrap_accounts ::
  "string \<Rightarrow> string \<Rightarrow> (string \<times> string) list \<Rightarrow> world \<Rightarrow> (exn + unit) \<times> world" where
  "bootstrap_accounts BUCKET database [] w = (Inr (), w)"
| "bootstrap_accounts BUCKET database ((prefix, table_name) # rest) w =
     (case find_partitions BUCKET prefix w of
        (Inl e, w1) \<Rightarrow> (Inl e, w1)
      | (Inr found, w1) \<Rightarrow>
          (case bootstrap_periods BUCKET database table_name found w1 of
             (Inl e, w2) \<Rightarrow> (Inl e, w2)
           | (Inr u, w2) \<Rightarrow> bootstrap_accounts BUCKET database rest w2))"

definition main :: "string \<Rightarrow> string \<Rightarrow> (string \<times> string) list \<Rightarrow> world \<Rightarrow> (exn + unit) \<times> world" where
  "main BUCKET database ACCOUNTS w =
     (if ACCOUNTS = [] then (Inr (), w) else bootstrap_accounts BUCKET database ACCOUNTS w)"

section \<open>Definitions used to state the properties\<close>

text \<open>When a single character satisfies a pattern atom.\<close>

fun atom_ok :: "atom \<Rightarrow> char \<Rightarrow> bool" where
  "atom_ok Digit c = isdigit c"
| "atom_ok (Lit l) c = (c = l)"

text \<open>
  The path mapper as the specification words it: the source prefix is stripped whenever
  the key starts with it, the empty prefix included.
\<close>

definition path_mapper_spec :: "string \<Rightarrow> string \<Rightarrow> string \<Rightarrow> string" where
  "path_mapper_spec key sourcePrefix destinationPrefix =
     (let relative =
            (if startswith key sourcePrefix
             then lstrip CHR ''/'' (drop (length sourcePrefix) key)
             else key)
      in if destinationPrefix = [] then relative
         else rstrip CHR ''/'' destinationPrefix @ ''/'' @ relative)"

text \<open>The exception a call or a function ended with, if any.\<close>

definition raised :: "exn + 'a \<Rightarrow> exn option" where
  "raised r = (case r of Inl e \<Rightarrow> Some e | Inr v \<Rightarrow> None)"

text \<open>The calls made between two worlds, the second reached from the first.\<close>

definition new_calls :: "world \<Rightarrow> world \<Rightarrow> (call \<times> exn option) list" where
  "new_calls w w' = drop (length (calls w)) (calls w')"





text \<open>
  What \<open>update_athena_partition\<close> makes of a key before it calls any service: the table,
  the billing period and the folder (the path up to the part after the billing period),
  or nothing, and then it returns at once.
\<close>

definition partition_target :: "env \<Rightarrow> string \<Rightarrow> (string \<times> string \<times> string) option" where
  "partition_target env key =
     (case resolve_table_name env key of
        None \<Rightarrow> None
      | Some table_name \<Rightarrow>
          if table_name = [] then None
          else (case find_billing_period 0 (split CHR ''/'' key) of
                  None \<Rightarrow> None
                | Some (billing_period, assembly_index) \<Rightarrow>
                    if billing_period = [] \<or> assembly_index \<ge> length (split CHR ''/'' key) then None
                    else Some (table_name, billing_period,
                               join ''/'' (take (assembly_index + 1) (split CHR ''/'' key)))))"

text \<open>The catalog calls of a trace, and the partition writes with the location they set.\<close>

fun glue_calls :: "(call \<times> exn option) list \<Rightarrow> (call \<times> exn option) list" where
  "glue_calls [] = []"
| "glue_calls ((GetTable d t, r) # cs) = (GetTable d t, r) # glue_calls cs"
| "glue_calls ((UpdatePartition d t vs p, r) # cs) = (UpdatePartition d t vs p, r) # glue_calls cs"
| "glue_calls ((CreatePartition d t p, r) # cs) = (CreatePartition d t p, r) # glue_calls cs"
| "glue_calls (c # cs) = glue_calls cs"

fun partition_writes :: "(call \<times> exn option) list \<Rightarrow> (string list \<times> string) list" where
  "partition_writes [] = []"
| "partition_writes ((UpdatePartition d t vs p, r) # cs) =
     (Values p, Location (StorageDescriptor p)) # partition_writes cs"
| "partition_writes ((CreatePartition d t p, r) # cs) =
     (Values p, Location (StorageDescriptor p)) # partition_writes cs"
| "partition_writes (c # cs) = partition_writes cs"


text \<open>The calls that only the partition repoint makes: the listing and the catalog.\<close>

fun is_partition_call :: "call \<Rightarrow> bool" where
  "is_partition_call (ListObjectsV2 b p n) = True"
| "is_partition_call (GetTable d t) = True"
| "is_partition_call (UpdatePartition d t vs p) = True"
| "is_partition_call (CreatePartition d t p) = True"
| "is_partition_call c = False"

text \<open>
  Two parts of \<open>process_record\<close>, named: the prefix rule it uses for a source bucket, and
  what it does before the partition update (manifest expansion or a plain copy).
\<close>

definition rule_for :: "env \<Rightarrow> string \<Rightarrow> prefix_config" where
  "rule_for env source_bucket =
     (if dict_get (PREFIX_MAPPING env) source_bucket [] = []
      then [(''source_prefix'', ''''), (''destination_prefix'', '''')]
      else dict_get (PREFIX_MAPPING env) source_bucket [])"

definition copy_stage ::
  "env \<Rightarrow> string \<Rightarrow> string \<Rightarrow> prefix_config \<Rightarrow> string \<Rightarrow> world \<Rightarrow> (exn + string list) \<times> world" where
  "copy_stage env source_bucket source_key prefix_config destination_key w =
     (if is_assembly_manifest destination_key
      then copy_manifest_data_files env source_bucket source_key prefix_config w
      else (case copy_object source_bucket source_key (DESTINATION_BUCKET env) destination_key w of
              (Inl e, w1) \<Rightarrow> (Inl e, w1)
            | (Inr u, w1) \<Rightarrow> (Inr [], w1)))"


section \<open>A configuration and worlds to run the code in\<close>

definition example_rule :: prefix_config where
  "example_rule = [(''source_prefix'', ''cur''), (''destination_prefix'', ''acct/'')]"

definition example_env :: env where
  "example_env =
     \<lparr>DESTINATION_BUCKET = ''dest'',
      PREFIX_MAPPING = [(''src'', example_rule)],
      GLUE_DATABASE = ''cur_db'',
      TABLE_MAPPING = [(''acct/'', ''acct_table'')],
      unquote_plus = (\<lambda>s. s)\<rparr>"

definition example_table :: storage_descriptor where
  "example_table = \<lparr>Location = ''s3://dest/acct/'', Descriptor = [(''InputFormat'', ''text'')]\<rparr>"

definition example_manifest_key :: string where
  "example_manifest_key = ''cur/20240101-20240201/20240115T120000Z/r-Manifest.json''"

definition example_report_keys :: "string list" where
  "example_report_keys =
     [''cur/20240101-20240201/20240115T120000Z/r-1.csv.gz'',
      ''cur/20240101-20240201/20240115T120000Z/r-2.csv.gz'',
      ''cur/20240101-20240201/20240115T120000Z/r-3.csv.gz'']"

text \<open>The source bucket holds one assembly: its manifest and three data files.\<close>

definition source_objects :: "((string \<times> string) \<times> document) list" where
  "source_objects =
     ((''src'', example_manifest_key), Manifest example_report_keys) #
     map (\<lambda>k. ((''src'', k), Unparseable)) example_report_keys"

text \<open>
  The first data file has already reached the destination; nothing fails.
\<close>

definition quiet_world :: world where
  "quiet_world =
     \<lparr>objects =
        source_objects @
        [((''dest'', ''acct/20240101-20240201/20240115T120000Z/r-1.csv.gz''), Unparseable)],
      tables = [((''cur_db'', ''acct_table''), example_table)],
      partitions = [],
      faults = (\<lambda>n c. None),
      calls = []\<rparr>"


text \<open>Nothing has reached the destination yet.\<close>

definition syncing_world :: world where
  "syncing_world = quiet_world\<lparr>objects := source_objects\<rparr>"

text \<open>The catalog has no table for the account.\<close>

definition tableless_world :: world where
  "tableless_world = quiet_world\<lparr>tables := []\<rparr>"





text \<open>
  The destination bucket during a sync: an older assembly with its data file, and a
  newer one of which only the manifest is there.
\<close>

definition backfill_world :: world where
  "backfill_world =
     quiet_world\<lparr>objects :=
       [((''dest'', ''acct/20240101-20240201/20240110T000000Z/r-1.csv.gz''), Unparseable),
        ((''dest'', ''acct/20240101-20240201/20240115T120000Z/r-Manifest.json''), Manifest [])]\<rparr>"





section \<open>Strings and patterns\<close>

lemma split_nonempty: "split sep s \<noteq> []"
  by (induction s) (auto split: list.splits)

lemma split_last_no_sep: "sep \<notin> set (last (split sep s))"
  by (induction s) (auto split: list.splits simp: split_nonempty)

lemma split_no_sep: "sep \<notin> set s \<Longrightarrow> split sep s = [s]"
  by (induction s) auto

lemma split_singleton: "split sep s = [p] \<Longrightarrow> p = s"
  by (induction s arbitrary: p) (auto split: list.splits if_splits simp: split_nonempty)

lemma split_last_suffix: "\<exists>pre. s = pre @ last (split sep s) \<and> (pre = [] \<or> last pre = sep)"
proof (induction s)
  case Nil
  then show ?case by simp
next
  case (Cons c s)
  then obtain pre where pre: "s = pre @ last (split sep s)" "pre = [] \<or> last pre = sep" by blast
  show ?case
  proof (cases "c = sep")
    case True
    with pre show ?thesis
      by (intro exI[of _ "c # pre"]) (auto simp: split_nonempty)
  next
    case False
    obtain p ps where pps: "split sep s = p # ps"
      using split_nonempty[of sep s] by (cases "split sep s") auto
    show ?thesis
    proof (cases ps)
      case Nil
      with pps have "p = s" by (simp add: split_singleton)
      with Nil pps False show ?thesis
        by (intro exI[of _ "[]"]) simp
    next
      case (Cons q qs)
      have "pre \<noteq> []"
      proof
        assume "pre = []"
        with pre have "s = last (split sep s)" by simp
        then have "sep \<notin> set s" using split_last_no_sep[of sep s] by simp
        then have "split sep s = [s]" by (rule split_no_sep)
        with pps Cons show False by simp
      qed
      with pre have "last (c # pre) = sep" by simp
      moreover have "c # s = (c # pre) @ last (split sep (c # s))"
        using pre pps Cons False by simp
      ultimately show ?thesis by blast
    qed
  qed
qed

lemma endswith_iff: "endswith s x \<longleftrightarrow> (\<exists>p. s = p @ x)"
proof
  assume "endswith s x"
  then have "s = take (length s - length x) s @ x"
    by (metis append_take_drop_id endswith_def)
  then show "\<exists>p. s = p @ x" by blast
next
  assume "\<exists>p. s = p @ x"
  then show "endswith s x" by (auto simp: endswith_def)
qed

lemma match_atoms_iff:
  "match_atoms p s = Some r \<longleftrightarrow>
     length p \<le> length s \<and> list_all2 atom_ok p (take (length p) s) \<and> r = drop (length p) s"
  by (induction p s rule: match_atoms.induct) (auto)

text \<open>
  What \<open>re.match\<close> with \<open>^\<close> and \<open>$\<close> accepts: the strings the pattern spells, and the
  same followed by one newline.
\<close>

lemma re_match_iff:
  "re_match p s \<longleftrightarrow>
     (\<exists>t. list_all2 atom_ok p t \<and> (s = t \<or> s = t @ [CHR 0x0A]))"
proof
  assume "re_match p s"
  then obtain r where r: "match_atoms p s = Some r" "r = [] \<or> r = [CHR 0x0A]"
    by (auto simp: re_match_def split: option.splits)
  then have "list_all2 atom_ok p (take (length p) s)" "s = take (length p) s @ r"
    by (auto simp: match_atoms_iff)
  with r(2) show "\<exists>t. list_all2 atom_ok p t \<and> (s = t \<or> s = t @ [CHR 0x0A])"
    by (metis append_Nil2)
next
  assume "\<exists>t. list_all2 atom_ok p t \<and> (s = t \<or> s = t @ [CHR 0x0A])"
  then obtain t where t: "list_all2 atom_ok p t" "s = t \<or> s = t @ [CHR 0x0A]" by blast
  then have "length p = length t" by (simp add: list_all2_lengthD)
  with t have "match_atoms p s = Some [] \<or> match_atoms p s = Some [CHR 0x0A]"
    by (auto simp: match_atoms_iff)
  then show "re_match p s" by (auto simp: re_match_def)
qed

lemma match_atoms_nth:
  assumes "match_atoms p s = Some r" "i < length p"
  shows "atom_ok (p ! i) (s ! i)"
proof -
  from assms have "list_all2 atom_ok p (take (length p) s)" by (simp add: match_atoms_iff)
  then have "atom_ok (p ! i) (take (length p) s ! i)" using assms(2) by (rule list_all2_nthD)
  with assms(2) show ?thesis by simp
qed

lemma billing_not_assembly:
  assumes "re_match BILLING_PERIOD_RE s"
  shows "\<not> re_match ASSEMBLY_RE s"
proof
  assume "re_match ASSEMBLY_RE s"
  then obtain r where "match_atoms ASSEMBLY_RE s = Some r"
    by (auto simp: re_match_def split: option.splits)
  then have "atom_ok (ASSEMBLY_RE ! 8) (s ! 8)"
    by (rule match_atoms_nth) (simp add: ASSEMBLY_RE_def)
  then have a: "s ! 8 = CHR ''T''" by (simp add: ASSEMBLY_RE_def)
  from assms obtain r' where "match_atoms BILLING_PERIOD_RE s = Some r'"
    by (auto simp: re_match_def split: option.splits)
  then have "atom_ok (BILLING_PERIOD_RE ! 8) (s ! 8)"
    by (rule match_atoms_nth) (simp add: BILLING_PERIOD_RE_def)
  then have "s ! 8 = CHR ''-''" by (simp add: BILLING_PERIOD_RE_def)
  with a show False by simp
qed

lemma endswith_last_segment:
  assumes "sep \<notin> set x"
  shows "endswith s x \<longleftrightarrow> endswith (last (split sep s)) x"
proof -
  obtain pre where pre: "s = pre @ last (split sep s)" "pre = [] \<or> last pre = sep"
    using split_last_suffix by blast
  let ?l = "last (split sep s)"
  show ?thesis
  proof
    assume "endswith s x"
    then obtain q where q: "s = q @ x" by (auto simp: endswith_iff)
    with pre(1) have "pre @ ?l = q @ x" by simp
    then consider r where "pre = q @ r" "r @ ?l = x" | r where "pre @ r = q" "?l = r @ x"
      by (auto simp: append_eq_append_conv2)
    then show "endswith ?l x"
    proof cases
      case 1
      show ?thesis
      proof (cases "r = []")
        case True
        with 1 show ?thesis by (auto simp: endswith_iff)
      next
        case False
        with 1(1) pre(2) have "last r = sep" by auto
        with False have "sep \<in> set r" using last_in_set by metis
        with 1(2) assms show ?thesis by auto
      qed
    next
      case 2
      then show ?thesis by (auto simp: endswith_iff)
    qed
  next
    assume "endswith ?l x"
    then obtain r where "?l = r @ x" by (auto simp: endswith_iff)
    with pre(1) have "s = (pre @ r) @ x" by simp
    then show "endswith s x" unfolding endswith_iff by blast
  qed
qed

text \<open>
  C5. \<open>is_assembly_manifest key\<close> holds exactly when the key ends with \<open>Manifest.json\<close>,
  has at least three segments, and its second-to-last segment matches the assembly id
  pattern as \<open>re.match\<close> reads it. Ending with the suffix is the same for the key and
  for its last segment. A key whose second-to-last segment is a billing period is not an
  assembly manifest.
\<close>

theorem is_assembly_manifest_iff:
  "(is_assembly_manifest key \<longleftrightarrow>
      endswith key ''Manifest.json'' \<and>
      3 \<le> length (split CHR ''/'' key) \<and>
      re_match ASSEMBLY_RE (split CHR ''/'' key ! (length (split CHR ''/'' key) - 2))) \<and>
   (endswith key ''Manifest.json'' \<longleftrightarrow> endswith (last (split CHR ''/'' key)) ''Manifest.json'') \<and>
   (re_match BILLING_PERIOD_RE (split CHR ''/'' key ! (length (split CHR ''/'' key) - 2))
      \<longrightarrow> \<not> is_assembly_manifest key)"
proof (intro conjI impI)
  show "is_assembly_manifest key \<longleftrightarrow>
      endswith key ''Manifest.json'' \<and>
      3 \<le> length (split CHR ''/'' key) \<and>
      re_match ASSEMBLY_RE (split CHR ''/'' key ! (length (split CHR ''/'' key) - 2))"
    by (auto simp: is_assembly_manifest_def Let_def)
  show "endswith key ''Manifest.json'' \<longleftrightarrow> endswith (last (split CHR ''/'' key)) ''Manifest.json''"
    by (rule endswith_last_segment) simp
  assume "re_match BILLING_PERIOD_RE (split CHR ''/'' key ! (length (split CHR ''/'' key) - 2))"
  then have "\<not> re_match ASSEMBLY_RE (split CHR ''/'' key ! (length (split CHR ''/'' key) - 2))"
    by (rule billing_not_assembly)
  then show "\<not> is_assembly_manifest key"
    by (simp add: is_assembly_manifest_def Let_def)
qed

text \<open>
  A manifest directly under a billing-period folder, and one inside an assembly folder.
\<close>

theorem is_assembly_manifest_iff_witness:
  "re_match BILLING_PERIOD_RE
     (split CHR ''/'' ''acct/20240101-20240201/report-Manifest.json'' !
        (length (split CHR ''/'' ''acct/20240101-20240201/report-Manifest.json'') - 2)) \<and>
   \<not> is_assembly_manifest ''acct/20240101-20240201/report-Manifest.json'' \<and>
   is_assembly_manifest ''acct/20240101-20240201/20240115T120000Z/report-Manifest.json''"
proof -
  have h: "re_match BILLING_PERIOD_RE
     (split CHR ''/'' ''acct/20240101-20240201/report-Manifest.json'' !
        (length (split CHR ''/'' ''acct/20240101-20240201/report-Manifest.json'') - 2))"
    by code_simp
  have a: "is_assembly_manifest ''acct/20240101-20240201/20240115T120000Z/report-Manifest.json''"
    by code_simp
  from h a is_assembly_manifest_iff[of "''acct/20240101-20240201/report-Manifest.json''"]
  show ?thesis by blast
qed

section \<open>The path mapper\<close>

lemma startswith_one: "startswith s [x] \<longleftrightarrow> (s \<noteq> [] \<and> hd s = x)"
  by (cases s) (auto simp: startswith_def)

lemma startswith_two: "startswith s [x, y] \<longleftrightarrow> (\<exists>t. s = x # y # t)"
  by (cases s; cases "tl s") (auto simp: startswith_def)

lemma lstrip_no_lead: "\<not> startswith (lstrip ch s) [ch]"
proof -
  have "dropWhile (\<lambda>c. c = ch) s \<noteq> [] \<Longrightarrow> hd (dropWhile (\<lambda>c. c = ch) s) \<noteq> ch"
    using hd_dropWhile[of "\<lambda>c. c = ch" s] by simp
  then show ?thesis by (auto simp: lstrip_def startswith_one)
qed

lemma rstrip_no_trail: "rstrip ch s = [] \<or> last (rstrip ch s) \<noteq> ch"
proof -
  have "dropWhile (\<lambda>c. c = ch) (rev s) \<noteq> [] \<Longrightarrow> hd (dropWhile (\<lambda>c. c = ch) (rev s)) \<noteq> ch"
    using hd_dropWhile[of "\<lambda>c. c = ch" "rev s"] by simp
  then show ?thesis by (auto simp: rstrip_def last_rev)
qed

lemma contains_join:
  "contains (a @ x # b) [x, x] \<longleftrightarrow>
     contains a [x, x] \<or> contains b [x, x] \<or> (a \<noteq> [] \<and> last a = x) \<or> (b \<noteq> [] \<and> hd b = x)"
proof (induction a)
  case Nil
  then show ?case by (cases b) (auto simp: startswith_two)
next
  case (Cons c a)
  then show ?case
    by (cases a) (auto simp: startswith_two)
qed

text \<open>
  C6, as the code has it. With a non-empty source prefix the mapper is the specified
  algorithm: the prefix and all leading separators are stripped when the key starts with
  it, the whole key is kept otherwise, and the destination prefix, its trailing
  separators stripped, is joined with one separator, or left out when empty. With an
  empty source prefix nothing is stripped: the whole key is the relative key.
\<close>

theorem calculate_destination_key_algorithm:
  "(dict_get cfg ''source_prefix'' '''' \<noteq> [] \<longrightarrow>
      calculate_destination_key key cfg =
        path_mapper_spec key (dict_get cfg ''source_prefix'' '''')
          (dict_get cfg ''destination_prefix'' '''')) \<and>
   (dict_get cfg ''source_prefix'' '''' = [] \<longrightarrow>
      calculate_destination_key key cfg =
        (if dict_get cfg ''destination_prefix'' '''' = [] then key
         else rstrip CHR ''/'' (dict_get cfg ''destination_prefix'' '''') @ ''/'' @ key))"
  by (simp add: calculate_destination_key_def path_mapper_spec_def Let_def)

theorem calculate_destination_key_algorithm_witness:
  "dict_get [(''source_prefix'', ''cur''), (''destination_prefix'', ''acct/'')] ''source_prefix'' [] \<noteq> [] \<and>
   calculate_destination_key ''cur//20240101-20240201/x.csv.gz''
     [(''source_prefix'', ''cur''), (''destination_prefix'', ''acct/'')] =
   ''acct/20240101-20240201/x.csv.gz'' \<and>
   dict_get [(''destination_prefix'', ''acct/'')] ''source_prefix'' [] = [] \<and>
   calculate_destination_key ''/x.csv.gz'' [(''destination_prefix'', ''acct/'')] = ''acct//x.csv.gz''"
proof -
  have a: "dict_get [(''source_prefix'', ''cur''), (''destination_prefix'', ''acct/'')] ''source_prefix'' [] \<noteq> []"
    by code_simp
  have b: "dict_get [(''destination_prefix'', ''acct/'')] ''source_prefix'' [] = []"
    by code_simp
  have c: "path_mapper_spec ''cur//20240101-20240201/x.csv.gz''
             (dict_get [(''source_prefix'', ''cur''), (''destination_prefix'', ''acct/'')] ''source_prefix'' [])
             (dict_get [(''source_prefix'', ''cur''), (''destination_prefix'', ''acct/'')] ''destination_prefix'' [])
           = ''acct/20240101-20240201/x.csv.gz''"
    by code_simp
  have d: "(if dict_get [(''destination_prefix'', ''acct/'')] ''destination_prefix'' [] = [] then ''/x.csv.gz''
            else rstrip CHR ''/'' (dict_get [(''destination_prefix'', ''acct/'')] ''destination_prefix'' []) @ ''/'' @ ''/x.csv.gz'')
           = ''acct//x.csv.gz''"
    by code_simp
  from a b c d
    calculate_destination_key_algorithm[of "[(''source_prefix'', ''cur''), (''destination_prefix'', ''acct/'')]"
      "''cur//20240101-20240201/x.csv.gz''"]
    calculate_destination_key_algorithm[of "[(''destination_prefix'', ''acct/'')]" "''/x.csv.gz''"]
  show ?thesis by metis
qed

text \<open>
  Every key starts with the empty source prefix, yet the leading separator of \<open>/a\<close>
  stays: the code strips only under a non-empty prefix.
\<close>

theorem calculate_destination_key_counterexample:
  "calculate_destination_key ''/a'' [(''source_prefix'', ''''), (''destination_prefix'', '''')]
     \<noteq> path_mapper_spec ''/a'' '''' ''''"
  by code_simp

text \<open>
  C7, as the code has it. The destination key has neither a leading nor a doubled
  separator exactly when the relative key has neither and the destination prefix is empty
  or, its trailing separators stripped, is non-empty and has neither. The mapper adds
  none of its own: under a matching non-empty source prefix the relative key does not
  begin with a separator, and the stripped destination prefix does not end with one. It
  removes none beyond these two strips.
\<close>

theorem destination_key_separators:
  "(let source_prefix = dict_get cfg ''source_prefix'' '''';
        destination_prefix = dict_get cfg ''destination_prefix'' '''';
        relative_key =
          (if source_prefix \<noteq> [] \<and> startswith key source_prefix
           then lstrip CHR ''/'' (drop (length source_prefix) key) else key);
        d = rstrip CHR ''/'' destination_prefix;
        out = calculate_destination_key key cfg
    in ((\<not> startswith out ''/'' \<and> \<not> contains out ''//'') \<longleftrightarrow>
          (\<not> startswith relative_key ''/'' \<and> \<not> contains relative_key ''//'') \<and>
          (destination_prefix = [] \<or>
             (d \<noteq> [] \<and> \<not> startswith d ''/'' \<and> \<not> contains d ''//''))) \<and>
       (source_prefix \<noteq> [] \<and> startswith key source_prefix \<longrightarrow>
          \<not> startswith relative_key ''/'') \<and>
       (d = [] \<or> last d \<noteq> CHR ''/''))"
proof -
  define sp where "sp = dict_get cfg ''source_prefix'' ''''"
  define dp where "dp = dict_get cfg ''destination_prefix'' ''''"
  define rel where "rel = (if sp \<noteq> [] \<and> startswith key sp
           then lstrip CHR ''/'' (drop (length sp) key) else key)"
  define d where "d = rstrip CHR ''/'' dp"
  have out: "calculate_destination_key key cfg = (if dp \<noteq> [] then d @ CHR ''/'' # rel else rel)"
    by (simp add: calculate_destination_key_def Let_def sp_def dp_def rel_def d_def)
  have dl: "d = [] \<or> last d \<noteq> CHR ''/''" unfolding d_def by (rule rstrip_no_trail)
  have "(\<not> startswith (calculate_destination_key key cfg) ''/'' \<and>
         \<not> contains (calculate_destination_key key cfg) ''//'') \<longleftrightarrow>
          (\<not> startswith rel ''/'' \<and> \<not> contains rel ''//'') \<and>
          (dp = [] \<or> (d \<noteq> [] \<and> \<not> startswith d ''/'' \<and> \<not> contains d ''//''))"
  proof (cases "dp = []")
    case True
    with out show ?thesis by simp
  next
    case False
    with out have o: "calculate_destination_key key cfg = d @ CHR ''/'' # rel" by simp
    show ?thesis
    proof (cases "d = []")
      case True
      with o False show ?thesis by (simp add: startswith_one)
    next
      case dne: False
      with dl have "last d \<noteq> CHR ''/''" by simp
      with dne o False show ?thesis
        by (auto simp: contains_join startswith_one)
    qed
  qed
  moreover have "sp \<noteq> [] \<and> startswith key sp \<longrightarrow> \<not> startswith rel ''/''"
    unfolding rel_def using lstrip_no_lead[of "CHR ''/''"] by simp
  ultimately have
    "((\<not> startswith (calculate_destination_key key cfg) ''/'' \<and>
         \<not> contains (calculate_destination_key key cfg) ''//'') \<longleftrightarrow>
          (\<not> startswith rel ''/'' \<and> \<not> contains rel ''//'') \<and>
          (dp = [] \<or> (d \<noteq> [] \<and> \<not> startswith d ''/'' \<and> \<not> contains d ''//''))) \<and>
     (sp \<noteq> [] \<and> startswith key sp \<longrightarrow> \<not> startswith rel ''/'') \<and>
     (d = [] \<or> last d \<noteq> CHR ''/'')"
    using dl by blast
  then show ?thesis
    unfolding Let_def sp_def dp_def rel_def d_def .
qed

theorem destination_key_separators_witness:
  "\<not> startswith (calculate_destination_key ''cur/20240101-20240201/x.csv.gz''
        [(''source_prefix'', ''cur''), (''destination_prefix'', ''acct/'')]) ''/'' \<and>
   \<not> contains (calculate_destination_key ''cur/20240101-20240201/x.csv.gz''
        [(''source_prefix'', ''cur''), (''destination_prefix'', ''acct/'')]) ''//''"
proof -
  have "(let source_prefix = dict_get [(''source_prefix'', ''cur''), (''destination_prefix'', ''acct/'')] ''source_prefix'' [];
        destination_prefix = dict_get [(''source_prefix'', ''cur''), (''destination_prefix'', ''acct/'')] ''destination_prefix'' [];
        relative_key =
          (if source_prefix \<noteq> [] \<and> startswith ''cur/20240101-20240201/x.csv.gz'' source_prefix
           then lstrip CHR ''/'' (drop (length source_prefix) ''cur/20240101-20240201/x.csv.gz'')
           else ''cur/20240101-20240201/x.csv.gz'');
        d = rstrip CHR ''/'' destination_prefix
    in (\<not> startswith relative_key ''/'' \<and> \<not> contains relative_key ''//'') \<and>
          (destination_prefix = [] \<or>
             (d \<noteq> [] \<and> \<not> startswith d ''/'' \<and> \<not> contains d ''//'')))"
    by code_simp
  with destination_key_separators[of "[(''source_prefix'', ''cur''), (''destination_prefix'', ''acct/'')]"
      "''cur/20240101-20240201/x.csv.gz''"]
  show ?thesis by (simp add: Let_def)
qed

text \<open>
  With the default rule a leading separator and a doubled separator of the source key
  both reach the destination key.
\<close>

theorem destination_key_separators_counterexample:
  "startswith (calculate_destination_key ''/a''
      [(''source_prefix'', ''''), (''destination_prefix'', '''')]) ''/'' \<and>
   contains (calculate_destination_key ''a//b''
      [(''source_prefix'', ''''), (''destination_prefix'', '''')]) ''//''"
  by code_simp

section \<open>The service calls\<close>

lemma raised_simps [simp]: "raised (Inl e) = Some e" "raised (Inr v) = None"
  by (simp_all add: raised_def)

lemma s3_head_object_effect:
  assumes "s3_head_object b k w = (r, w')"
  shows "w' = w\<lparr>calls := calls w @ [(HeadObject b k, raised r)]\<rparr>"
  using assms
  by (auto simp: s3_head_object_def invoke_def split: option.splits sum.splits)

lemma s3_copy_object_effect:
  assumes "s3_copy_object sb sk b k w = (r, w')"
  shows "calls w' = calls w @ [(CopyObject sb sk b k, raised r)] \<and> faults w' = faults w \<and>
         tables w' = tables w \<and> partitions w' = partitions w \<and>
         (r \<noteq> Inr () \<longrightarrow> objects w' = objects w)"
  using assms
  by (auto simp: s3_copy_object_def invoke_def split: option.splits sum.splits)

lemma copy_object_effect:
  assumes "copy_object sb sk b k w = (r, w')"
  shows "calls w' = calls w @ [(CopyObject sb sk b k, raised r)] \<and> faults w' = faults w \<and>
         tables w' = tables w \<and> partitions w' = partitions w \<and>
         (r \<noteq> Inr () \<longrightarrow> objects w' = objects w)"
proof -
  from assms obtain r0 where "s3_copy_object sb sk b k w = (r0, w')" "raised r0 = raised r" "r0 \<noteq> Inr () \<longrightarrow> r \<noteq> Inr ()"
    "r \<noteq> Inr () \<longrightarrow> r0 \<noteq> Inr ()"
    by (auto simp: copy_object_def split: prod.splits sum.splits)
  with s3_copy_object_effect[of sb sk b k w r0 w'] show ?thesis by auto
qed

lemma s3_list_objects_v2_effect:
  assumes "s3_list_objects_v2 b pfx n w = (r, w')"
  shows "w' = w\<lparr>calls := calls w @ [(ListObjectsV2 b pfx n, raised r)]\<rparr> \<and>
         (\<forall>contents. r = Inr contents \<longrightarrow> contents = take n (keys_under w b pfx))"
  using assms
  by (auto simp: s3_list_objects_v2_def invoke_def split: option.splits sum.splits)

lemma glue_get_table_effect:
  assumes "glue_get_table d t w = (r, w')"
  shows "w' = w\<lparr>calls := calls w @ [(GetTable d t, raised r)]\<rparr>"
  using assms
  by (auto simp: glue_get_table_def invoke_def split: option.splits sum.splits)

lemma glue_update_partition_effect:
  assumes "glue_update_partition d t vs p w = (r, w')"
  shows "calls w' = calls w @ [(UpdatePartition d t vs p, raised r)] \<and> faults w' = faults w \<and>
         objects w' = objects w \<and> tables w' = tables w \<and>
         (r \<noteq> Inr () \<longrightarrow> partitions w' = partitions w)"
  using assms
  by (auto simp: glue_update_partition_def invoke_def split: option.splits sum.splits)

lemma glue_create_partition_effect:
  assumes "glue_create_partition d t p w = (r, w')"
  shows "calls w' = calls w @ [(CreatePartition d t p, raised r)] \<and> faults w' = faults w \<and>
         objects w' = objects w \<and> tables w' = tables w \<and>
         (r \<noteq> Inr () \<longrightarrow> partitions w' = partitions w)"
  using assms
  by (auto simp: glue_create_partition_def invoke_def split: option.splits sum.splits)

lemma new_calls_append: "calls w' = calls w @ n \<Longrightarrow> new_calls w w' = n"
  by (simp add: new_calls_def)

lemma new_calls_same [simp]: "new_calls w w = []"
  by (simp add: new_calls_def)

lemma keys_under_iff:
  "k \<in> set (keys_under w b pfx) \<longleftrightarrow> (\<exists>d. ((b, k), d) \<in> set (objects w)) \<and> startswith k pfx"
  by (auto simp: keys_under_def image_iff)

section \<open>Manifest expansion\<close>







lemma s3_get_object_effect:
  assumes "s3_get_object b k w = (r, w')"
  shows "w' = w\<lparr>calls := calls w @ [(GetObject b k, raised r)]\<rparr>"
  using assms
  by (auto simp: s3_get_object_def invoke_def split: option.splits sum.splits)






section \<open>The partition repoint\<close>

lemma update_athena_partition_no_target:
  assumes "partition_target env key = None"
  shows "update_athena_partition env bucket key w = (Inr (), w)"
  using assms
  by (auto simp: update_athena_partition_def partition_target_def Let_def
           split: option.splits if_splits prod.splits)

lemma update_athena_partition_target:
  assumes "partition_target env key = Some (table_name, billing_period, partition_path)"
  shows "update_athena_partition env bucket key w =
     (case s3_list_objects_v2 bucket (partition_path @ ''/'') 20 w of
        (Inl e, w1) \<Rightarrow> (Inl e, w1)
      | (Inr contents, w1) \<Rightarrow>
          if filter (\<lambda>k. endswith k ''.csv.gz'') contents = [] then (Inr (), w1)
          else
            (case glue_get_table (GLUE_DATABASE env) table_name w1 of
               (Inl e, w2) \<Rightarrow> (Inl e, w2)
             | (Inr table_sd, w2) \<Rightarrow>
                 (case glue_update_partition (GLUE_DATABASE env) table_name [billing_period]
                         \<lparr>Values = [billing_period],
                          StorageDescriptor = table_sd\<lparr>Location :=
                            ''s3://'' @ bucket @ ''/'' @ partition_path @ ''/''\<rparr>\<rparr> w2 of
                    (Inr u, w3) \<Rightarrow> (Inr (), w3)
                  | (Inl e, w3) \<Rightarrow>
                      if e = ClientError ''EntityNotFoundException''
                      then glue_create_partition (GLUE_DATABASE env) table_name
                             \<lparr>Values = [billing_period],
                              StorageDescriptor = table_sd\<lparr>Location :=
                                ''s3://'' @ bucket @ ''/'' @ partition_path @ ''/''\<rparr>\<rparr> w3
                      else (Inl e, w3))))"
  using assms
  unfolding update_athena_partition_def partition_target_def Let_def
  by (auto split: option.splits if_splits cong: if_cong prod.case_cong sum.case_cong)

lemma update_athena_partition_repoint:
  assumes "partition_target env key = Some (table_name, billing_period, partition_path)"
  shows "update_athena_partition env bucket key w =
     (case s3_list_objects_v2 bucket (partition_path @ ''/'') 20 w of
        (Inl e, w1) \<Rightarrow> (Inl e, w1)
      | (Inr contents, w1) \<Rightarrow>
          if filter (\<lambda>k. endswith k ''.csv.gz'') contents = [] then (Inr (), w1)
          else
            (case create_or_update_partition (GLUE_DATABASE env) table_name billing_period
                    (''s3://'' @ bucket @ ''/'' @ partition_path @ ''/'') w1 of
               (Inl e, w2) \<Rightarrow> (Inl e, w2)
             | (Inr action, w2) \<Rightarrow> (Inr (), w2)))"
  unfolding update_athena_partition_target[OF assms] create_or_update_partition_def Let_def
  by (auto split: prod.splits sum.splits if_splits)

lemma create_or_update_partition_cases:
  assumes "create_or_update_partition d t bp loc w = (r, w')"
  shows "objects w' = objects w \<and> tables w' = tables w \<and> faults w' = faults w \<and>
     ((\<exists>e. r = Inl e \<and> calls w' = calls w @ [(GetTable d t, Some e)] \<and> partitions w' = partitions w) \<or>
      (\<exists>sd. r = Inr ''updated'' \<and>
         calls w' = calls w @
           [(GetTable d t, None),
            (UpdatePartition d t [bp] \<lparr>Values = [bp], StorageDescriptor = sd\<lparr>Location := loc\<rparr>\<rparr>, None)]) \<or>
      (\<exists>sd e. r = Inl e \<and> e \<noteq> ClientError ''EntityNotFoundException'' \<and>
         partitions w' = partitions w \<and>
         calls w' = calls w @
           [(GetTable d t, None),
            (UpdatePartition d t [bp] \<lparr>Values = [bp], StorageDescriptor = sd\<lparr>Location := loc\<rparr>\<rparr>, Some e)]) \<or>
      (\<exists>sd. (r = Inr ''created'' \<or> (\<exists>e. r = Inl e \<and> partitions w' = partitions w)) \<and>
         calls w' = calls w @
           [(GetTable d t, None),
            (UpdatePartition d t [bp] \<lparr>Values = [bp], StorageDescriptor = sd\<lparr>Location := loc\<rparr>\<rparr>,
               Some (ClientError ''EntityNotFoundException'')),
            (CreatePartition d t \<lparr>Values = [bp], StorageDescriptor = sd\<lparr>Location := loc\<rparr>\<rparr>,
               raised r)]))"
proof -
  obtain r1 w1 where g: "glue_get_table d t w = (r1, w1)" by (cases "glue_get_table d t w")
  then have w1: "w1 = w\<lparr>calls := calls w @ [(GetTable d t, raised r1)]\<rparr>"
    by (rule glue_get_table_effect)
  show ?thesis
  proof (cases r1)
    case (Inl e)
    with assms g have "r = Inl e" "w' = w1" by (auto simp: create_or_update_partition_def)
    with w1 Inl show ?thesis by simp
  next
    case (Inr sd)
    let ?p = "\<lparr>Values = [bp], StorageDescriptor = sd\<lparr>Location := loc\<rparr>\<rparr>"
    obtain r2 w2 where u: "glue_update_partition d t [bp] ?p w1 = (r2, w2)"
      by (cases "glue_update_partition d t [bp] ?p w1")
    then have w2: "calls w2 = calls w1 @ [(UpdatePartition d t [bp] ?p, raised r2)]"
      "faults w2 = faults w1" "objects w2 = objects w1" "tables w2 = tables w1"
      "r2 \<noteq> Inr () \<longrightarrow> partitions w2 = partitions w1"
      using glue_update_partition_effect by blast+
    show ?thesis
    proof (cases r2)
      case (Inr u2)
      with assms g u \<open>r1 = Inr sd\<close> have "r = Inr ''updated''" "w' = w2"
        by (auto simp: create_or_update_partition_def Let_def)
      with w1 w2 \<open>r1 = Inr sd\<close> Inr show ?thesis by auto
    next
      case (Inl e)
      show ?thesis
      proof (cases "e = ClientError ''EntityNotFoundException''")
        case False
        with assms g u \<open>r1 = Inr sd\<close> Inl have "r = Inl e" "w' = w2"
          by (auto simp: create_or_update_partition_def Let_def)
        with w1 w2 \<open>r1 = Inr sd\<close> Inl False show ?thesis by auto
      next
        case True
        obtain r3 w3 where c: "glue_create_partition d t ?p w2 = (r3, w3)"
          by (cases "glue_create_partition d t ?p w2")
        then have w3: "calls w3 = calls w2 @ [(CreatePartition d t ?p, raised r3)]"
          "faults w3 = faults w2" "objects w3 = objects w2" "tables w3 = tables w2"
          "r3 \<noteq> Inr () \<longrightarrow> partitions w3 = partitions w2"
          using glue_create_partition_effect by blast+
        from assms g u c \<open>r1 = Inr sd\<close> Inl True
        have r: "w' = w3" "(r3 = Inr () \<and> r = Inr ''created'') \<or> (\<exists>e'. r3 = Inl e' \<and> r = Inl e')"
          by (auto simp: create_or_update_partition_def Let_def split: sum.splits)
        then have rr: "raised r = raised r3" by auto
        have cs: "calls w' = calls w @
           [(GetTable d t, None),
            (UpdatePartition d t [bp] ?p, Some (ClientError ''EntityNotFoundException'')),
            (CreatePartition d t ?p, raised r)]"
          using w1 w2(1) w3(1) r(1) rr \<open>r1 = Inr sd\<close> Inl True by simp
        have fr: "objects w' = objects w \<and> tables w' = tables w \<and> faults w' = faults w"
          using w1 w2 w3 r(1) by simp
        have pr: "r = Inr ''created'' \<or> (\<exists>e. r = Inl e \<and> partitions w' = partitions w)"
          using r w3(5) w2(5) w1 Inl by auto
        from cs fr pr show ?thesis by blast
      qed
    qed
  qed
qed

lemma update_athena_partition_outcomes:
  assumes run: "update_athena_partition env bucket key w = (r, w')"
    and target: "partition_target env key = Some (t, bp, folder)"
  shows "objects w' = objects w \<and> tables w' = tables w \<and> faults w' = faults w \<and>
    ((\<exists>e. r = Inl e \<and> partitions w' = partitions w \<and>
        calls w' = calls w @ [(ListObjectsV2 bucket (folder @ ''/'') 20, Some e)]) \<or>
     (filter (\<lambda>k. endswith k ''.csv.gz'') (take 20 (keys_under w bucket (folder @ ''/''))) = [] \<and>
        r = Inr () \<and> partitions w' = partitions w \<and>
        calls w' = calls w @ [(ListObjectsV2 bucket (folder @ ''/'') 20, None)]) \<or>
     (filter (\<lambda>k. endswith k ''.csv.gz'') (take 20 (keys_under w bucket (folder @ ''/''))) \<noteq> [] \<and>
        (\<exists>w1 ra. create_or_update_partition (GLUE_DATABASE env) t bp
                   (''s3://'' @ bucket @ ''/'' @ folder @ ''/'') w1 = (ra, w') \<and>
                 partitions w1 = partitions w \<and> raised ra = raised r \<and>
                 calls w1 = calls w @ [(ListObjectsV2 bucket (folder @ ''/'') 20, None)])))"
proof -
  let ?pfx = "folder @ ''/''"
  obtain r1 w1 where l: "s3_list_objects_v2 bucket ?pfx 20 w = (r1, w1)"
    by (cases "s3_list_objects_v2 bucket ?pfx 20 w")
  then have w1: "w1 = w\<lparr>calls := calls w @ [(ListObjectsV2 bucket ?pfx 20, raised r1)]\<rparr>"
    and c1: "\<And>contents. r1 = Inr contents \<Longrightarrow> contents = take 20 (keys_under w bucket ?pfx)"
    using s3_list_objects_v2_effect by blast+
  note rp = update_athena_partition_repoint[OF target, of bucket w]
  show ?thesis
  proof (cases r1)
    case (Inl e)
    with run rp l have "r = Inl e" "w' = w1" by auto
    with w1 Inl show ?thesis by simp
  next
    case (Inr contents)
    then have contents: "contents = take 20 (keys_under w bucket ?pfx)" by (rule c1)
    show ?thesis
    proof (cases "filter (\<lambda>k. endswith k ''.csv.gz'') contents = []")
      case True
      with run rp l Inr have "r = Inr ()" "w' = w1" by auto
      with w1 Inr True contents show ?thesis by simp
    next
      case False
      let ?loc = "''s3://'' @ bucket @ ''/'' @ folder @ ''/''"
      obtain ra wa where a: "create_or_update_partition (GLUE_DATABASE env) t bp ?loc w1 = (ra, wa)"
        by (cases "create_or_update_partition (GLUE_DATABASE env) t bp ?loc w1")
      with run rp l Inr False have "w' = wa" "raised ra = raised r"
        by (auto split: sum.splits)
      moreover from a have "objects wa = objects w1 \<and> tables wa = tables w1 \<and> faults wa = faults w1"
        using create_or_update_partition_cases by blast
      moreover have f1: "partitions w1 = partitions w"
        "calls w1 = calls w @ [(ListObjectsV2 bucket ?pfx 20, None)]"
        "objects w1 = objects w" "tables w1 = tables w" "faults w1 = faults w"
        using w1 Inr by simp_all
      ultimately have fr: "objects w' = objects w \<and> tables w' = tables w \<and> faults w' = faults w"
        and a': "create_or_update_partition (GLUE_DATABASE env) t bp ?loc w1 = (ra, w')"
        and rr: "raised ra = raised r"
        using a by simp_all
      from a' f1(1) rr f1(2) have
        "\<exists>w1 ra. create_or_update_partition (GLUE_DATABASE env) t bp ?loc w1 = (ra, w') \<and>
                 partitions w1 = partitions w \<and> raised ra = raised r \<and>
                 calls w1 = calls w @ [(ListObjectsV2 bucket ?pfx 20, None)]"
        by blast
      with fr have
        "objects w' = objects w \<and> tables w' = tables w \<and> faults w' = faults w"
        "\<exists>w1 ra. create_or_update_partition (GLUE_DATABASE env) t bp ?loc w1 = (ra, w') \<and>
                 partitions w1 = partitions w \<and> raised ra = raised r \<and>
                 calls w1 = calls w @ [(ListObjectsV2 bucket ?pfx 20, None)]"
        by simp_all
      with False contents show ?thesis by blast
    qed
  qed
qed

lemma repoint_trace:
  assumes a: "create_or_update_partition d t bp loc w1 = (ra, w')"
    and c1: "calls w1 = calls w @ [(ListObjectsV2 bucket pfx n, None)]"
  shows "list_all (\<lambda>wr. wr = ([bp], loc)) (partition_writes (new_calls w w'))"
    and "glue_calls (new_calls w w') \<noteq> []"
proof -
  from create_or_update_partition_cases[OF a]
  consider
    (get) e where "calls w' = calls w1 @ [(GetTable d t, Some e)]"
  | (upd) sd where "calls w' = calls w1 @
           [(GetTable d t, None),
            (UpdatePartition d t [bp] \<lparr>Values = [bp], StorageDescriptor = sd\<lparr>Location := loc\<rparr>\<rparr>, None)]"
  | (err) sd e where "calls w' = calls w1 @
           [(GetTable d t, None),
            (UpdatePartition d t [bp] \<lparr>Values = [bp], StorageDescriptor = sd\<lparr>Location := loc\<rparr>\<rparr>, Some e)]"
  | (cre) sd where "calls w' = calls w1 @
           [(GetTable d t, None),
            (UpdatePartition d t [bp] \<lparr>Values = [bp], StorageDescriptor = sd\<lparr>Location := loc\<rparr>\<rparr>,
               Some (ClientError ''EntityNotFoundException'')),
            (CreatePartition d t \<lparr>Values = [bp], StorageDescriptor = sd\<lparr>Location := loc\<rparr>\<rparr>,
               raised ra)]"
    by blast
  then have "list_all (\<lambda>wr. wr = ([bp], loc)) (partition_writes (new_calls w w')) \<and>
             glue_calls (new_calls w w') \<noteq> []"
  proof cases
    case get
    with c1 have "new_calls w w' = [(ListObjectsV2 bucket pfx n, None), (GetTable d t, Some e)]"
      by (simp add: new_calls_def)
    then show ?thesis by simp
  next
    case upd
    with c1 have "new_calls w w' = [(ListObjectsV2 bucket pfx n, None), (GetTable d t, None),
            (UpdatePartition d t [bp] \<lparr>Values = [bp], StorageDescriptor = sd\<lparr>Location := loc\<rparr>\<rparr>, None)]"
      by (simp add: new_calls_def)
    then show ?thesis by simp
  next
    case err
    with c1 have "new_calls w w' = [(ListObjectsV2 bucket pfx n, None), (GetTable d t, None),
            (UpdatePartition d t [bp] \<lparr>Values = [bp], StorageDescriptor = sd\<lparr>Location := loc\<rparr>\<rparr>, Some e)]"
      by (simp add: new_calls_def)
    then show ?thesis by simp
  next
    case cre
    with c1 have "new_calls w w' = [(ListObjectsV2 bucket pfx n, None), (GetTable d t, None),
            (UpdatePartition d t [bp] \<lparr>Values = [bp], StorageDescriptor = sd\<lparr>Location := loc\<rparr>\<rparr>,
               Some (ClientError ''EntityNotFoundException'')),
            (CreatePartition d t \<lparr>Values = [bp], StorageDescriptor = sd\<lparr>Location := loc\<rparr>\<rparr>,
               raised ra)]"
      by (simp add: new_calls_def)
    then show ?thesis by simp
  qed
  then show "list_all (\<lambda>wr. wr = ([bp], loc)) (partition_writes (new_calls w w'))"
    and "glue_calls (new_calls w w') \<noteq> []" by simp_all
qed

text \<open>
  C1. Whatever \<open>update_athena_partition\<close> is called with, it leaves the objects alone, and
  for a key with a table, a billing period and a folder after it: every partition write
  it makes sets the location to that folder; when the listing of the folder (the first 20
  keys under it) holds no key ending in \<open>.csv.gz\<close>, the partitions are unchanged, no
  catalog call is made, and it returns normally unless the listing itself raised; and when
  a partition changed or a catalog call was made, the bucket holds an object under the
  folder whose key ends in \<open>.csv.gz\<close>. For any other key it returns at once.
\<close>

theorem update_athena_partition_gate:
  assumes run: "update_athena_partition env bucket manifest_key w = (r, w')"
  shows "objects w' = objects w \<and>
    (case partition_target env manifest_key of
       None \<Rightarrow> r = Inr () \<and> w' = w
     | Some (table_name, billing_period, folder) \<Rightarrow>
         list_all (\<lambda>wr. wr = ([billing_period], ''s3://'' @ bucket @ ''/'' @ folder @ ''/''))
           (partition_writes (new_calls w w')) \<and>
         (filter (\<lambda>k. endswith k ''.csv.gz'') (take 20 (keys_under w bucket (folder @ ''/''))) = []
            \<longrightarrow> partitions w' = partitions w \<and> glue_calls (new_calls w w') = [] \<and>
                (r = Inr () \<or>
                 new_calls w w' = [(ListObjectsV2 bucket (folder @ ''/'') 20, raised r)])) \<and>
         (partitions w' \<noteq> partitions w \<or> glue_calls (new_calls w w') \<noteq> []
            \<longrightarrow> (\<exists>k d. ((bucket, k), d) \<in> set (objects w) \<and>
                       startswith k (folder @ ''/'') \<and> endswith k ''.csv.gz'')))"
proof (cases "partition_target env manifest_key")
  case None
  with run update_athena_partition_no_target[OF None, of bucket w] show ?thesis by simp
next
  case (Some tg)
  obtain t bp folder where tg: "tg = (t, bp, folder)" by (cases tg)
  with Some have target: "partition_target env manifest_key = Some (t, bp, folder)" by simp
  let ?pfx = "folder @ ''/''"
  let ?loc = "''s3://'' @ bucket @ ''/'' @ folder @ ''/''"
  let ?data = "filter (\<lambda>k. endswith k ''.csv.gz'') (take 20 (keys_under w bucket ?pfx))"
  have found: "?data \<noteq> [] \<Longrightarrow>
      \<exists>k d. ((bucket, k), d) \<in> set (objects w) \<and> startswith k ?pfx \<and> endswith k ''.csv.gz''"
  proof -
    assume "?data \<noteq> []"
    then obtain k where "k \<in> set ?data" by (cases ?data) auto
    then have "k \<in> set (take 20 (keys_under w bucket ?pfx))" "endswith k ''.csv.gz''" by auto
    then have "k \<in> set (keys_under w bucket ?pfx)" using in_set_takeD by metis
    with \<open>endswith k ''.csv.gz''\<close> show ?thesis by (auto simp: keys_under_iff)
  qed
  from update_athena_partition_outcomes[OF run target]
  have fr: "objects w' = objects w" by simp
  from update_athena_partition_outcomes[OF run target]
  consider
    (listing) e where "r = Inl e" "partitions w' = partitions w"
      "calls w' = calls w @ [(ListObjectsV2 bucket ?pfx 20, Some e)]"
  | (empty) "?data = []" "r = Inr ()" "partitions w' = partitions w"
      "calls w' = calls w @ [(ListObjectsV2 bucket ?pfx 20, None)]"
  | (data) w1 ra where "?data \<noteq> []"
      "create_or_update_partition (GLUE_DATABASE env) t bp ?loc w1 = (ra, w')"
      "calls w1 = calls w @ [(ListObjectsV2 bucket ?pfx 20, None)]"
    by blast
  then have
    "list_all (\<lambda>wr. wr = ([bp], ?loc)) (partition_writes (new_calls w w')) \<and>
     (?data = [] \<longrightarrow> partitions w' = partitions w \<and> glue_calls (new_calls w w') = [] \<and>
        (r = Inr () \<or> new_calls w w' = [(ListObjectsV2 bucket ?pfx 20, raised r)])) \<and>
     (partitions w' \<noteq> partitions w \<or> glue_calls (new_calls w w') \<noteq> []
        \<longrightarrow> (\<exists>k d. ((bucket, k), d) \<in> set (objects w) \<and>
                   startswith k ?pfx \<and> endswith k ''.csv.gz''))"
  proof cases
    case listing
    from listing(3) have "new_calls w w' = [(ListObjectsV2 bucket ?pfx 20, Some e)]"
      by (rule new_calls_append)
    with listing show ?thesis by simp
  next
    case empty
    from empty(4) have "new_calls w w' = [(ListObjectsV2 bucket ?pfx 20, None)]"
      by (rule new_calls_append)
    with empty show ?thesis by simp
  next
    case data
    from repoint_trace[OF data(2) data(3)] found[OF data(1)] data(1)
    show ?thesis by simp
  qed
  with fr target show ?thesis by simp
qed

text \<open>
  With a data file in the folder the partition is created; with an empty folder it is not.
\<close>

theorem update_athena_partition_gate_witness:
  "partitions (snd (update_athena_partition example_env ''dest''
       ''acct/20240101-20240201/20240115T120000Z/r-1.csv.gz'' quiet_world)) \<noteq> partitions quiet_world \<and>
   (\<exists>k d. ((''dest'', k), d) \<in> set (objects quiet_world) \<and>
           startswith k ''acct/20240101-20240201/20240115T120000Z/'' \<and> endswith k ''.csv.gz'') \<and>
   filter (\<lambda>k. endswith k ''.csv.gz'')
     (take 20 (keys_under syncing_world ''dest'' ''acct/20240101-20240201/20240115T120000Z/'')) = [] \<and>
   partitions (snd (update_athena_partition example_env ''dest''
       ''acct/20240101-20240201/20240115T120000Z/r-Manifest.json'' syncing_world)) = partitions syncing_world"
proof -
  have t1: "partition_target example_env ''acct/20240101-20240201/20240115T120000Z/r-1.csv.gz'' =
      Some (''acct_table'', ''20240101-20240201'', ''acct/20240101-20240201/20240115T120000Z'')"
    by code_simp
  have t2: "partition_target example_env ''acct/20240101-20240201/20240115T120000Z/r-Manifest.json'' =
      Some (''acct_table'', ''20240101-20240201'', ''acct/20240101-20240201/20240115T120000Z'')"
    by code_simp
  have c: "partitions (snd (update_athena_partition example_env ''dest''
       ''acct/20240101-20240201/20240115T120000Z/r-1.csv.gz'' quiet_world)) \<noteq> partitions quiet_world"
    by code_simp
  have e: "filter (\<lambda>k. endswith k ''.csv.gz'')
     (take 20 (keys_under syncing_world ''dest'' (''acct/20240101-20240201/20240115T120000Z'' @ ''/''))) = []"
    by code_simp
  have g1: "\<exists>k d. ((''dest'', k), d) \<in> set (objects quiet_world) \<and>
           startswith k (''acct/20240101-20240201/20240115T120000Z'' @ ''/'') \<and> endswith k ''.csv.gz''"
    using update_athena_partition_gate[OF surjective_pairing, of example_env "''dest''"
        "''acct/20240101-20240201/20240115T120000Z/r-1.csv.gz''" quiet_world] c
    unfolding t1 by simp
  have g2: "partitions (snd (update_athena_partition example_env ''dest''
       ''acct/20240101-20240201/20240115T120000Z/r-Manifest.json'' syncing_world)) = partitions syncing_world"
    using update_athena_partition_gate[OF surjective_pairing, of example_env "''dest''"
        "''acct/20240101-20240201/20240115T120000Z/r-Manifest.json''" syncing_world] e
    unfolding t2 by simp
  from c g1 e g2 show ?thesis by simp
qed

section \<open>One record\<close>

lemma process_record_unfold:
  "process_record env (S3Record source_bucket object_key) w =
     (case copy_stage env source_bucket (unquote_plus env object_key) (rule_for env source_bucket)
             (calculate_destination_key (unquote_plus env object_key) (rule_for env source_bucket)) w of
        (Inl e, w1) \<Rightarrow> (Inl e, w1)
      | (Inr copied, w1) \<Rightarrow>
          (Inr \<lparr>source = ''s3://'' @ source_bucket @ ''/'' @ unquote_plus env object_key,
                destination = ''s3://'' @ DESTINATION_BUCKET env @ ''/'' @
                  calculate_destination_key (unquote_plus env object_key) (rule_for env source_bucket),
                copied_data_files = (if copied = [] then None else Some (length copied))\<rparr>,
           if GLUE_DATABASE env \<noteq> [] \<and>
              (is_assembly_manifest
                 (calculate_destination_key (unquote_plus env object_key) (rule_for env source_bucket)) \<or>
               is_assembly_data_file
                 (calculate_destination_key (unquote_plus env object_key) (rule_for env source_bucket))) \<and>
              calculate_destination_key (unquote_plus env object_key) (rule_for env source_bucket) \<noteq> []
           then snd (update_athena_partition env (DESTINATION_BUCKET env)
                  (calculate_destination_key (unquote_plus env object_key) (rule_for env source_bucket)) w1)
           else w1))"
proof -
  define sk where "sk = unquote_plus env object_key"
  define cfg where "cfg = rule_for env source_bucket"
  define dk where "dk = calculate_destination_key sk cfg"
  define stage where "stage = copy_stage env source_bucket sk cfg dk w"
  define finish where "finish = (\<lambda>(sr :: exn + string list, w1 :: world).
     case sr of Inl e \<Rightarrow> (Inl e :: exn + result, w1)
     | Inr copied \<Rightarrow>
      (Inr \<lparr>source = ''s3://'' @ source_bucket @ ''/'' @ sk,
                destination = ''s3://'' @ DESTINATION_BUCKET env @ ''/'' @ dk,
                copied_data_files = (if copied = [] then None else Some (length copied))\<rparr>,
           if GLUE_DATABASE env \<noteq> [] \<and> (is_assembly_manifest dk \<or> is_assembly_data_file dk) \<and> dk \<noteq> []
           then snd (update_athena_partition env (DESTINATION_BUCKET env) dk w1)
           else w1))"
  have pk: "(case (if is_assembly_manifest dk then Some dk
                   else if is_assembly_data_file dk then Some dk else None) of
               None \<Rightarrow> w1
             | Some k \<Rightarrow> if k \<noteq> [] then snd (update_athena_partition env (DESTINATION_BUCKET env) k w1) else w1)
            = (if (is_assembly_manifest dk \<or> is_assembly_data_file dk) \<and> dk \<noteq> []
               then snd (update_athena_partition env (DESTINATION_BUCKET env) dk w1) else w1)" for w1
    by simp
  have lhs: "process_record env (S3Record source_bucket object_key) w = finish stage"
    unfolding process_record_def Let_def s3_record.case
      sk_def[symmetric] rule_for_def[symmetric] cfg_def[symmetric] dk_def[symmetric]
      copy_stage_def[symmetric] stage_def[symmetric] finish_def pk
    by (cases stage) (auto split: sum.splits)
  have rhs: "finish stage = (case stage of
        (Inl e, w1) \<Rightarrow> (Inl e, w1)
      | (Inr copied, w1) \<Rightarrow>
          (Inr \<lparr>source = ''s3://'' @ source_bucket @ ''/'' @ sk,
                destination = ''s3://'' @ DESTINATION_BUCKET env @ ''/'' @ dk,
                copied_data_files = (if copied = [] then None else Some (length copied))\<rparr>,
           if GLUE_DATABASE env \<noteq> [] \<and> (is_assembly_manifest dk \<or> is_assembly_data_file dk) \<and> dk \<noteq> []
           then snd (update_athena_partition env (DESTINATION_BUCKET env) dk w1)
           else w1))"
    unfolding finish_def by (cases stage) (auto split: sum.splits)
  from lhs rhs show ?thesis
    unfolding stage_def dk_def cfg_def sk_def by (rule trans)
qed

lemma copy_report_keys_calls:
  assumes "copy_report_keys env sb cfg rks copied w = (r, w')"
  shows "\<exists>new. calls w' = calls w @ new \<and> list_all (\<lambda>c. \<not> is_partition_call (fst c)) new"
  using assms
proof (induction rks arbitrary: copied w)
  case Nil
  then show ?case by simp
next
  case (Cons rk rks)
  let ?dk = "calculate_destination_key rk cfg"
  let ?b = "DESTINATION_BUCKET env"
  obtain r1 w1 where h: "s3_head_object ?b ?dk w = (r1, w1)" by (cases "s3_head_object ?b ?dk w")
  then have w1: "calls w1 = calls w @ [(HeadObject ?b ?dk, raised r1)]"
    using s3_head_object_effect[OF h] by simp
  show ?case
  proof (cases r1)
    case (Inr u)
    with h Cons.prems have "copy_report_keys env sb cfg rks (copied @ [?dk]) w1 = (r, w')"
      by (simp add: Let_def)
    from Cons.IH[OF this] obtain new where
      "calls w' = calls w1 @ new" "list_all (\<lambda>c. \<not> is_partition_call (fst c)) new" by blast
    with w1 have "calls w' = calls w @ (HeadObject ?b ?dk, raised r1) # new"
      "list_all (\<lambda>c. \<not> is_partition_call (fst c)) ((HeadObject ?b ?dk, raised r1) # new)"
      by simp_all
    then show ?thesis by blast
  next
    case (Inl e)
    show ?thesis
    proof (cases "is_ClientError e")
      case False
      with h Inl Cons.prems have "w' = w1" by (simp add: Let_def)
      with w1 have "calls w' = calls w @ [(HeadObject ?b ?dk, raised r1)]"
        "list_all (\<lambda>c. \<not> is_partition_call (fst c)) [(HeadObject ?b ?dk, raised r1)]"
        by simp_all
      then show ?thesis by blast
    next
      case True
      obtain r2 w2 where c: "copy_object sb rk ?b ?dk w1 = (r2, w2)" by (cases "copy_object sb rk ?b ?dk w1")
      then have w2: "calls w2 = calls w1 @ [(CopyObject sb rk ?b ?dk, raised r2)]"
        using copy_object_effect by blast
      from h Inl True c Cons.prems obtain copied2 where
        "copy_report_keys env sb cfg rks copied2 w2 = (r, w')"
        by (cases r2) (simp_all add: Let_def)
      from Cons.IH[OF this] obtain new where
        "calls w' = calls w2 @ new" "list_all (\<lambda>c. \<not> is_partition_call (fst c)) new" by blast
      with w1 w2 have
        "calls w' = calls w @ (HeadObject ?b ?dk, raised r1) # (CopyObject sb rk ?b ?dk, raised r2) # new"
        "list_all (\<lambda>c. \<not> is_partition_call (fst c))
           ((HeadObject ?b ?dk, raised r1) # (CopyObject sb rk ?b ?dk, raised r2) # new)"
        by simp_all
      then show ?thesis by blast
    qed
  qed
qed

lemma copy_stage_calls:
  assumes "copy_stage env sb sk cfg dk w = (sr, w1)"
  shows "\<exists>c x new. calls w1 = calls w @ (c, x) # new \<and>
           c = (if is_assembly_manifest dk then GetObject sb sk
                else CopyObject sb sk (DESTINATION_BUCKET env) dk) \<and>
           list_all (\<lambda>c. \<not> is_partition_call (fst c)) new"
proof (cases "is_assembly_manifest dk")
  case False
  obtain r2 w2 where c: "copy_object sb sk (DESTINATION_BUCKET env) dk w = (r2, w2)"
    by (cases "copy_object sb sk (DESTINATION_BUCKET env) dk w")
  then have "calls w2 = calls w @ [(CopyObject sb sk (DESTINATION_BUCKET env) dk, raised r2)]"
    using copy_object_effect by blast
  moreover from assms False c have "w1 = w2"
    by (auto simp: copy_stage_def split: sum.splits)
  ultimately show ?thesis using False by simp
next
  case True
  with assms have m: "copy_manifest_data_files env sb sk cfg w = (sr, w1)"
    by (simp add: copy_stage_def)
  obtain r0 w0 where g: "s3_get_object sb sk w = (r0, w0)" by (cases "s3_get_object sb sk w")
  then have w0: "calls w0 = calls w @ [(GetObject sb sk, raised r0)]"
    using s3_get_object_effect[OF g] by simp
  have "\<exists>new. calls w1 = calls w0 @ new \<and> list_all (\<lambda>c. \<not> is_partition_call (fst c)) new"
  proof (cases "\<exists>rks. r0 = Inr (Manifest rks) \<and> rks \<noteq> []")
    case True
    then obtain rks where "r0 = Inr (Manifest rks)" "rks \<noteq> []" by blast
    with m g have "copy_report_keys env sb cfg rks [] w0 = (sr, w1)"
      by (simp add: copy_manifest_data_files_def)
    then show ?thesis by (rule copy_report_keys_calls)
  next
    case False
    with m g have "w1 = w0"
      by (auto simp: copy_manifest_data_files_def split: sum.splits document.splits if_splits)
    then show ?thesis by simp
  qed
  with w0 True show ?thesis by auto
qed

lemma update_athena_partition_calls:
  assumes "update_athena_partition env bucket key w = (r, w')"
  shows "\<exists>new. calls w' = calls w @ new \<and> list_all (\<lambda>c. is_partition_call (fst c)) new"
proof (cases "partition_target env key")
  case None
  with assms update_athena_partition_no_target[OF None, of bucket w] show ?thesis by simp
next
  case (Some tg)
  obtain t bp folder where "tg = (t, bp, folder)" by (cases tg)
  with Some have target: "partition_target env key = Some (t, bp, folder)" by simp
  let ?L = "ListObjectsV2 bucket (folder @ ''/'') 20"
  from update_athena_partition_outcomes[OF assms target]
  consider
    (one) x where "calls w' = calls w @ [(?L, x)]"
  | (data) w1 ra where
      "create_or_update_partition (GLUE_DATABASE env) t bp
         (''s3://'' @ bucket @ ''/'' @ folder @ ''/'') w1 = (ra, w')"
      "calls w1 = calls w @ [(?L, None)]"
    by blast
  then show ?thesis
  proof cases
    case one
    then have "calls w' = calls w @ [(?L, x)]"
      "list_all (\<lambda>c. is_partition_call (fst c)) [(?L, x)]" by simp_all
    then show ?thesis by blast
  next
    case data
    from create_or_update_partition_cases[OF data(1)]
    obtain g where "calls w' = calls w1 @ g" "list_all (\<lambda>c. is_partition_call (fst c)) g"
      by (elim conjE disjE exE) auto
    with data(2) have "calls w' = calls w @ (?L, None) # g"
      "list_all (\<lambda>c. is_partition_call (fst c)) ((?L, None) # g)" by simp_all
    then show ?thesis by blast
  qed
qed

lemma process_record_trace:
  assumes "process_record env (S3Record source_bucket object_key) w = (res, w')"
  shows "\<exists>c x n1 n2.
      new_calls w w' = (c, x) # n1 @ n2 \<and>
      c = (if is_assembly_manifest
                (calculate_destination_key (unquote_plus env object_key) (rule_for env source_bucket))
           then GetObject source_bucket (unquote_plus env object_key)
           else CopyObject source_bucket (unquote_plus env object_key) (DESTINATION_BUCKET env)
                  (calculate_destination_key (unquote_plus env object_key) (rule_for env source_bucket))) \<and>
      list_all (\<lambda>c. \<not> is_partition_call (fst c)) n1 \<and>
      list_all (\<lambda>c. is_partition_call (fst c)) n2 \<and>
      (n2 \<noteq> [] \<longrightarrow>
         (\<exists>x. res = Inr x) \<and> GLUE_DATABASE env \<noteq> [] \<and>
         (is_assembly_manifest
            (calculate_destination_key (unquote_plus env object_key) (rule_for env source_bucket)) \<or>
          is_assembly_data_file
            (calculate_destination_key (unquote_plus env object_key) (rule_for env source_bucket))))"
proof -
  define sk where "sk = unquote_plus env object_key"
  define cfg where "cfg = rule_for env source_bucket"
  define dk where "dk = calculate_destination_key sk cfg"
  obtain sr w1 where st: "copy_stage env source_bucket sk cfg dk w = (sr, w1)"
    by (cases "copy_stage env source_bucket sk cfg dk w")
  from copy_stage_calls[OF st] obtain c x n1 where n1:
    "calls w1 = calls w @ (c, x) # n1"
    "c = (if is_assembly_manifest dk then GetObject source_bucket sk
          else CopyObject source_bucket sk (DESTINATION_BUCKET env) dk)"
    "list_all (\<lambda>c. \<not> is_partition_call (fst c)) n1"
    by blast
  note pr = assms[unfolded process_record_unfold, folded sk_def cfg_def, folded dk_def, unfolded st]
  have "\<exists>n2. calls w' = calls w1 @ n2 \<and> list_all (\<lambda>c. is_partition_call (fst c)) n2 \<and>
          (n2 \<noteq> [] \<longrightarrow> (\<exists>x. res = Inr x) \<and> GLUE_DATABASE env \<noteq> [] \<and>
             (is_assembly_manifest dk \<or> is_assembly_data_file dk))"
  proof (cases sr)
    case (Inl e)
    with pr have "w' = w1" by simp
    then show ?thesis by simp
  next
    case (Inr copied)
    show ?thesis
    proof (cases "GLUE_DATABASE env \<noteq> [] \<and> (is_assembly_manifest dk \<or> is_assembly_data_file dk) \<and> dk \<noteq> []")
      case False
      with pr Inr have "w' = w1" by auto
      then show ?thesis by simp
    next
      case True
      with pr Inr have w': "w' = snd (update_athena_partition env (DESTINATION_BUCKET env) dk w1)"
        and r: "\<exists>x. res = Inr x" by auto
      from w' have "update_athena_partition env (DESTINATION_BUCKET env) dk w1 =
          (fst (update_athena_partition env (DESTINATION_BUCKET env) dk w1), w')" by simp
      from update_athena_partition_calls[OF this] obtain n2 where
        "calls w' = calls w1 @ n2" "list_all (\<lambda>c. is_partition_call (fst c)) n2" by blast
      with True r show ?thesis by blast
    qed
  qed
  then obtain n2 where n2: "calls w' = calls w1 @ n2" "list_all (\<lambda>c. is_partition_call (fst c)) n2"
    "n2 \<noteq> [] \<longrightarrow> (\<exists>x. res = Inr x) \<and> GLUE_DATABASE env \<noteq> [] \<and>
             (is_assembly_manifest dk \<or> is_assembly_data_file dk)"
    by blast
  from n1(1) n2(1) have "calls w' = calls w @ ((c, x) # n1 @ n2)" by simp
  then have "new_calls w w' = (c, x) # n1 @ n2" by (rule new_calls_append)
  with n1(2,3) n2(2,3) show ?thesis
    unfolding dk_def cfg_def sk_def by blast
qed



lemma glue_calls_of_repoint:
  assumes a: "create_or_update_partition d t bp loc w1 = (ra, w')"
    and c1: "calls w1 = calls w @ [(ListObjectsV2 bucket pfx n, None)]"
  shows "\<exists>p. Values p = [bp] \<and>
     ((\<exists>e. glue_calls (new_calls w w') = [(GetTable d t, Some e)] \<and> ra = Inl e) \<or>
      (glue_calls (new_calls w w') = [(GetTable d t, None), (UpdatePartition d t [bp] p, None)] \<and>
         (\<exists>a. ra = Inr a)) \<or>
      (\<exists>e. glue_calls (new_calls w w') =
              [(GetTable d t, None), (UpdatePartition d t [bp] p, Some e)] \<and>
            e \<noteq> ClientError ''EntityNotFoundException'' \<and> ra = Inl e) \<or>
      glue_calls (new_calls w w') =
         [(GetTable d t, None),
          (UpdatePartition d t [bp] p, Some (ClientError ''EntityNotFoundException'')),
          (CreatePartition d t p, raised ra)])"
proof -
  from create_or_update_partition_cases[OF a]
  consider
    (get) e where "ra = Inl e" "calls w' = calls w1 @ [(GetTable d t, Some e)]"
  | (upd) sd where "ra = Inr ''updated''" "calls w' = calls w1 @
           [(GetTable d t, None),
            (UpdatePartition d t [bp] \<lparr>Values = [bp], StorageDescriptor = sd\<lparr>Location := loc\<rparr>\<rparr>, None)]"
  | (err) sd e where "ra = Inl e" "e \<noteq> ClientError ''EntityNotFoundException''"
      "calls w' = calls w1 @
           [(GetTable d t, None),
            (UpdatePartition d t [bp] \<lparr>Values = [bp], StorageDescriptor = sd\<lparr>Location := loc\<rparr>\<rparr>, Some e)]"
  | (cre) sd where "calls w' = calls w1 @
           [(GetTable d t, None),
            (UpdatePartition d t [bp] \<lparr>Values = [bp], StorageDescriptor = sd\<lparr>Location := loc\<rparr>\<rparr>,
               Some (ClientError ''EntityNotFoundException'')),
            (CreatePartition d t \<lparr>Values = [bp], StorageDescriptor = sd\<lparr>Location := loc\<rparr>\<rparr>,
               raised ra)]"
    by blast
  then show ?thesis
  proof cases
    case get
    with c1 have "new_calls w w' = [(ListObjectsV2 bucket pfx n, None), (GetTable d t, Some e)]"
      by (simp add: new_calls_def)
    then have "glue_calls (new_calls w w') = [(GetTable d t, Some e)]" by simp
    with get(1) show ?thesis
      by (intro exI[of _ "\<lparr>Values = [bp], StorageDescriptor = \<lparr>Location = loc, Descriptor = []\<rparr>\<rparr>"]) simp
  next
    case upd
    let ?p = "\<lparr>Values = [bp], StorageDescriptor = sd\<lparr>Location := loc\<rparr>\<rparr>"
    from upd c1 have "new_calls w w' = [(ListObjectsV2 bucket pfx n, None), (GetTable d t, None),
            (UpdatePartition d t [bp] ?p, None)]"
      by (simp add: new_calls_def)
    then have "glue_calls (new_calls w w') = [(GetTable d t, None), (UpdatePartition d t [bp] ?p, None)]"
      by simp
    with upd(1) show ?thesis by (intro exI[of _ ?p]) simp
  next
    case err
    let ?p = "\<lparr>Values = [bp], StorageDescriptor = sd\<lparr>Location := loc\<rparr>\<rparr>"
    from err c1 have "new_calls w w' = [(ListObjectsV2 bucket pfx n, None), (GetTable d t, None),
            (UpdatePartition d t [bp] ?p, Some e)]"
      by (simp add: new_calls_def)
    then have "glue_calls (new_calls w w') = [(GetTable d t, None), (UpdatePartition d t [bp] ?p, Some e)]"
      by simp
    with err(1,2) show ?thesis by (intro exI[of _ ?p]) simp
  next
    case cre
    let ?p = "\<lparr>Values = [bp], StorageDescriptor = sd\<lparr>Location := loc\<rparr>\<rparr>"
    from cre c1 have "new_calls w w' = [(ListObjectsV2 bucket pfx n, None), (GetTable d t, None),
            (UpdatePartition d t [bp] ?p, Some (ClientError ''EntityNotFoundException'')),
            (CreatePartition d t ?p, raised ra)]"
      by (simp add: new_calls_def)
    then have "glue_calls (new_calls w w') = [(GetTable d t, None),
            (UpdatePartition d t [bp] ?p, Some (ClientError ''EntityNotFoundException'')),
            (CreatePartition d t ?p, raised ra)]"
      by simp
    then show ?thesis by (intro exI[of _ ?p]) simp
  qed
qed

text \<open>
  C4. The catalog calls of one \<open>update_athena_partition\<close> are none, or the fetch of the
  table that failed, its error raised; or the fetch and the update of the partition keyed
  by the billing period, which succeeded; or the fetch and an update that failed with
  anything but \<open>EntityNotFoundException\<close>, that error raised; or the fetch, an update that
  failed with \<open>EntityNotFoundException\<close>, and then the create of the same partition, whose
  outcome is the outcome of the call. And whenever \<open>process_record\<close> got as far as a call of
  the partition repoint, it returns a result: nothing the repoint raises leaves it.
\<close>

theorem partition_update_errors:
  assumes uap: "update_athena_partition env bucket manifest_key w = (r, w')"
    and pr: "process_record env item v = (res, v')"
  shows "(glue_calls (new_calls w w') = [] \<or>
          (\<exists>t bp folder p.
             partition_target env manifest_key = Some (t, bp, folder) \<and> Values p = [bp] \<and>
             ((\<exists>e. glue_calls (new_calls w w') = [(GetTable (GLUE_DATABASE env) t, Some e)] \<and>
                   r = Inl e) \<or>
              (glue_calls (new_calls w w') =
                 [(GetTable (GLUE_DATABASE env) t, None),
                  (UpdatePartition (GLUE_DATABASE env) t [bp] p, None)] \<and> r = Inr ()) \<or>
              (\<exists>e. glue_calls (new_calls w w') =
                      [(GetTable (GLUE_DATABASE env) t, None),
                       (UpdatePartition (GLUE_DATABASE env) t [bp] p, Some e)] \<and>
                    e \<noteq> ClientError ''EntityNotFoundException'' \<and> r = Inl e) \<or>
              glue_calls (new_calls w w') =
                 [(GetTable (GLUE_DATABASE env) t, None),
                  (UpdatePartition (GLUE_DATABASE env) t [bp] p,
                     Some (ClientError ''EntityNotFoundException'')),
                  (CreatePartition (GLUE_DATABASE env) t p, raised r)]))) \<and>
         (list_ex (\<lambda>c. is_partition_call (fst c)) (new_calls v v') \<longrightarrow> (\<exists>x. res = Inr x))"
proof (rule conjI)
  show "list_ex (\<lambda>c. is_partition_call (fst c)) (new_calls v v') \<longrightarrow> (\<exists>x. res = Inr x)"
  proof (cases item)
    case MalformedRecord
    with pr have "v' = v" by (simp add: process_record_def)
    then show ?thesis by simp
  next
    case (S3Record source_bucket object_key)
    from process_record_trace[OF pr[unfolded S3Record]]
    obtain c x n1 n2 where t0:
      "new_calls v v' = (c, x) # n1 @ n2"
      "c = (if is_assembly_manifest
                (calculate_destination_key (unquote_plus env object_key) (rule_for env source_bucket))
           then GetObject source_bucket (unquote_plus env object_key)
           else CopyObject source_bucket (unquote_plus env object_key) (DESTINATION_BUCKET env)
                  (calculate_destination_key (unquote_plus env object_key) (rule_for env source_bucket)))"
      "list_all (\<lambda>c. \<not> is_partition_call (fst c)) n1"
      "n2 \<noteq> [] \<longrightarrow> (\<exists>x. res = Inr x) \<and> GLUE_DATABASE env \<noteq> [] \<and>
         (is_assembly_manifest
            (calculate_destination_key (unquote_plus env object_key) (rule_for env source_bucket)) \<or>
          is_assembly_data_file
            (calculate_destination_key (unquote_plus env object_key) (rule_for env source_bucket)))"
      by blast
    from t0(2) have "\<not> is_partition_call c" by simp
    with t0 have t:
      "new_calls v v' = (c, x) # n1 @ n2"
      "\<not> is_partition_call c"
      "list_all (\<lambda>c. \<not> is_partition_call (fst c)) n1"
      "n2 \<noteq> [] \<longrightarrow> (\<exists>x. res = Inr x)"
      by simp_all
    have "list_ex (\<lambda>c. is_partition_call (fst c)) (new_calls v v') \<Longrightarrow> n2 \<noteq> []"
      using t(1,2,3) by (auto simp: list_ex_iff list_all_iff)
    with t(4) show ?thesis by blast
  qed
next
  show "glue_calls (new_calls w w') = [] \<or>
          (\<exists>t bp folder p.
             partition_target env manifest_key = Some (t, bp, folder) \<and> Values p = [bp] \<and>
             ((\<exists>e. glue_calls (new_calls w w') = [(GetTable (GLUE_DATABASE env) t, Some e)] \<and>
                   r = Inl e) \<or>
              (glue_calls (new_calls w w') =
                 [(GetTable (GLUE_DATABASE env) t, None),
                  (UpdatePartition (GLUE_DATABASE env) t [bp] p, None)] \<and> r = Inr ()) \<or>
              (\<exists>e. glue_calls (new_calls w w') =
                      [(GetTable (GLUE_DATABASE env) t, None),
                       (UpdatePartition (GLUE_DATABASE env) t [bp] p, Some e)] \<and>
                    e \<noteq> ClientError ''EntityNotFoundException'' \<and> r = Inl e) \<or>
              glue_calls (new_calls w w') =
                 [(GetTable (GLUE_DATABASE env) t, None),
                  (UpdatePartition (GLUE_DATABASE env) t [bp] p,
                     Some (ClientError ''EntityNotFoundException'')),
                  (CreatePartition (GLUE_DATABASE env) t p, raised r)]))"
  proof (cases "partition_target env manifest_key")
    case None
    with uap update_athena_partition_no_target[OF None, of bucket w] show ?thesis by simp
  next
    case (Some tg)
    obtain t bp folder where "tg = (t, bp, folder)" by (cases tg)
    with Some have target: "partition_target env manifest_key = Some (t, bp, folder)" by simp
    let ?L = "ListObjectsV2 bucket (folder @ ''/'') 20"
    from update_athena_partition_outcomes[OF uap target]
    consider
      (one) x where "calls w' = calls w @ [(?L, x)]"
    | (data) w1 ra where
        "create_or_update_partition (GLUE_DATABASE env) t bp
           (''s3://'' @ bucket @ ''/'' @ folder @ ''/'') w1 = (ra, w')"
        "calls w1 = calls w @ [(?L, None)]" "raised ra = raised r"
      by blast
    then show ?thesis
    proof cases
      case one
      then have "new_calls w w' = [(?L, x)]" by (rule new_calls_append)
      then show ?thesis by simp
    next
      case data
      have rr: "\<And>e. ra = Inl e \<Longrightarrow> r = Inl e" using data(3) by (cases r) auto
      have ri: "(\<exists>a. ra = Inr a) \<Longrightarrow> r = Inr ()" using data(3) by (cases r) auto
      from glue_calls_of_repoint[OF data(1,2)] obtain p where p: "Values p = [bp]"
        "(\<exists>e. glue_calls (new_calls w w') = [(GetTable (GLUE_DATABASE env) t, Some e)] \<and> ra = Inl e) \<or>
         (glue_calls (new_calls w w') =
            [(GetTable (GLUE_DATABASE env) t, None),
             (UpdatePartition (GLUE_DATABASE env) t [bp] p, None)] \<and> (\<exists>a. ra = Inr a)) \<or>
         (\<exists>e. glue_calls (new_calls w w') =
              [(GetTable (GLUE_DATABASE env) t, None),
               (UpdatePartition (GLUE_DATABASE env) t [bp] p, Some e)] \<and>
            e \<noteq> ClientError ''EntityNotFoundException'' \<and> ra = Inl e) \<or>
         glue_calls (new_calls w w') =
            [(GetTable (GLUE_DATABASE env) t, None),
             (UpdatePartition (GLUE_DATABASE env) t [bp] p,
                Some (ClientError ''EntityNotFoundException'')),
             (CreatePartition (GLUE_DATABASE env) t p, raised ra)]"
        by blast
      from p(2) rr ri data(3) have
        "(\<exists>e. glue_calls (new_calls w w') = [(GetTable (GLUE_DATABASE env) t, Some e)] \<and> r = Inl e) \<or>
         (glue_calls (new_calls w w') =
            [(GetTable (GLUE_DATABASE env) t, None),
             (UpdatePartition (GLUE_DATABASE env) t [bp] p, None)] \<and> r = Inr ()) \<or>
         (\<exists>e. glue_calls (new_calls w w') =
              [(GetTable (GLUE_DATABASE env) t, None),
               (UpdatePartition (GLUE_DATABASE env) t [bp] p, Some e)] \<and>
            e \<noteq> ClientError ''EntityNotFoundException'' \<and> r = Inl e) \<or>
         glue_calls (new_calls w w') =
            [(GetTable (GLUE_DATABASE env) t, None),
             (UpdatePartition (GLUE_DATABASE env) t [bp] p,
                Some (ClientError ''EntityNotFoundException'')),
             (CreatePartition (GLUE_DATABASE env) t p, raised r)]"
        by metis
      with target p(1) show ?thesis by blast
    qed
  qed
qed

text \<open>
  Without a table the fetch fails, the repoint raises, and the record is still processed;
  with a table and no partition yet the update is not found and the create follows.
\<close>

theorem partition_update_errors_witness:
  "fst (update_athena_partition example_env ''dest''
          ''acct/20240101-20240201/20240115T120000Z/r-1.csv.gz'' tableless_world)
     = Inl (ClientError ''EntityNotFoundException'') \<and>
   list_ex (\<lambda>c. is_partition_call (fst c))
     (new_calls tableless_world (snd (process_record example_env
        (S3Record ''src'' ''cur/20240101-20240201/20240115T120000Z/r-1.csv.gz'') tableless_world))) \<and>
   (\<exists>x. fst (process_record example_env
        (S3Record ''src'' ''cur/20240101-20240201/20240115T120000Z/r-1.csv.gz'') tableless_world) = Inr x) \<and>
   fst (handler example_env
        [Direct (S3Record ''src'' ''cur/20240101-20240201/20240115T120000Z/r-1.csv.gz'')] tableless_world)
     = Inr \<lparr>statusCode = 200, processed = 1, errors = 0,
            files = [\<lparr>source = ''s3://src/cur/20240101-20240201/20240115T120000Z/r-1.csv.gz'',
                      destination = ''s3://dest/acct/20240101-20240201/20240115T120000Z/r-1.csv.gz'',
                      copied_data_files = None\<rparr>],
            error_details = None\<rparr> \<and>
   glue_calls (new_calls quiet_world (snd (update_athena_partition example_env ''dest''
          ''acct/20240101-20240201/20240115T120000Z/r-1.csv.gz'' quiet_world))) \<noteq> [] \<and>
   (\<exists>t bp folder p.
       partition_target example_env ''acct/20240101-20240201/20240115T120000Z/r-1.csv.gz''
         = Some (t, bp, folder) \<and> Values p = [bp] \<and>
       glue_calls (new_calls quiet_world (snd (update_athena_partition example_env ''dest''
          ''acct/20240101-20240201/20240115T120000Z/r-1.csv.gz'' quiet_world))) =
         [(GetTable (GLUE_DATABASE example_env) t, None),
          (UpdatePartition (GLUE_DATABASE example_env) t [bp] p,
             Some (ClientError ''EntityNotFoundException'')),
          (CreatePartition (GLUE_DATABASE example_env) t p, None)])"
proof -
  let ?k = "''acct/20240101-20240201/20240115T120000Z/r-1.csv.gz''"
  let ?rec = "S3Record ''src'' ''cur/20240101-20240201/20240115T120000Z/r-1.csv.gz''"
  let ?g = "glue_calls (new_calls quiet_world (snd (update_athena_partition example_env ''dest'' ?k quiet_world)))"
  have e: "fst (update_athena_partition example_env ''dest'' ?k tableless_world)
     = Inl (ClientError ''EntityNotFoundException'')"
    by code_simp
  have l: "list_ex (\<lambda>c. is_partition_call (fst c))
     (new_calls tableless_world (snd (process_record example_env ?rec tableless_world)))"
    by code_simp
  have g: "?g \<noteq> []" "length ?g = 3" "snd (?g ! 2) = None"
    "raised (fst (update_athena_partition example_env ''dest'' ?k quiet_world)) = None"
    by code_simp+
  note th = partition_update_errors[where env=example_env and bucket="''dest''" and manifest_key="?k"
      and w=quiet_world and item="?rec" and v=tableless_world,
      OF surjective_pairing surjective_pairing]
  from th l have x: "\<exists>x. fst (process_record example_env ?rec tableless_world) = Inr x"
    by blast
  from th g(1) obtain t bp folder p where p:
    "partition_target example_env ?k = Some (t, bp, folder)" "Values p = [bp]"
    "(\<exists>e. ?g = [(GetTable (GLUE_DATABASE example_env) t, Some e)] \<and>
        fst (update_athena_partition example_env ''dest'' ?k quiet_world) = Inl e) \<or>
     (?g = [(GetTable (GLUE_DATABASE example_env) t, None),
            (UpdatePartition (GLUE_DATABASE example_env) t [bp] p, None)] \<and>
        fst (update_athena_partition example_env ''dest'' ?k quiet_world) = Inr ()) \<or>
     (\<exists>e. ?g = [(GetTable (GLUE_DATABASE example_env) t, None),
               (UpdatePartition (GLUE_DATABASE example_env) t [bp] p, Some e)] \<and>
          e \<noteq> ClientError ''EntityNotFoundException'' \<and>
          fst (update_athena_partition example_env ''dest'' ?k quiet_world) = Inl e) \<or>
     ?g = [(GetTable (GLUE_DATABASE example_env) t, None),
           (UpdatePartition (GLUE_DATABASE example_env) t [bp] p,
              Some (ClientError ''EntityNotFoundException'')),
           (CreatePartition (GLUE_DATABASE example_env) t p,
              raised (fst (update_athena_partition example_env ''dest'' ?k quiet_world)))]"
    by blast
  from p(3) g(2) have "?g = [(GetTable (GLUE_DATABASE example_env) t, None),
           (UpdatePartition (GLUE_DATABASE example_env) t [bp] p,
              Some (ClientError ''EntityNotFoundException'')),
           (CreatePartition (GLUE_DATABASE example_env) t p, None)]"
    unfolding g(4) by auto
  moreover have "fst (handler example_env [Direct ?rec] tableless_world)
     = Inr \<lparr>statusCode = 200, processed = 1, errors = 0,
            files = [\<lparr>source = ''s3://src/cur/20240101-20240201/20240115T120000Z/r-1.csv.gz'',
                      destination = ''s3://dest/acct/20240101-20240201/20240115T120000Z/r-1.csv.gz'',
                      copied_data_files = None\<rparr>],
            error_details = None\<rparr>"
    by code_simp
  ultimately show ?thesis using p(1,2) e l x g(1) by blast
qed

section \<open>One batch\<close>










section \<open>The backfill script\<close>

text \<open>
  C2 at a bucket caught during a sync. The script's listing holds an older assembly with
  a data file and a newer one with only its manifest. \<open>find_partitions\<close> takes the newer
  one, no key under which ends in \<open>.csv.gz\<close>, and \<open>main\<close> creates the partition with that
  folder as its location. The forwarder, called for the same manifest in the same world,
  writes no partition.
\<close>

theorem bootstrap_points_at_manifest_only_folder:
  "find_partitions_of_keys (keys_under backfill_world ''dest'' ''acct/'') =
     [(''20240101-20240201'', ''20240115T120000Z'', ''acct/20240101-20240201/20240115T120000Z'')] \<and>
   filter (\<lambda>k. endswith k ''.csv.gz'')
     (keys_under backfill_world ''dest'' ''acct/20240101-20240201/20240115T120000Z/'') = [] \<and>
   fst (main ''dest'' ''cur_db'' [(''acct/'', ''acct_table'')] backfill_world) = Inr () \<and>
   map (\<lambda>p. Location (StorageDescriptor (snd p)))
     (partitions (snd (main ''dest'' ''cur_db'' [(''acct/'', ''acct_table'')] backfill_world))) =
     [''s3://dest/acct/20240101-20240201/20240115T120000Z/''] \<and>
   partitions (snd (update_athena_partition example_env ''dest''
      ''acct/20240101-20240201/20240115T120000Z/r-Manifest.json'' backfill_world)) = []"
  by code_simp


end
